theory Spec2Isabelle
  imports Main
begin

section \<open>The fragment of encoding/json that the logger relies on\<close>

text \<open>
  The logger hands its contexts (values of type \<^verbatim>\<open>interface{}\<close>) to \<^verbatim>\<open>json.Marshal\<close>.
  Go values are modelled by the datatype below: the nil interface, a typed nil pointer,
  booleans, integers, strings (byte sequences), slices, structs (the fields in declaration
  order, each with its \<^verbatim>\<open>json\<close> struct tag), pointers and channels (a type that
  \<^verbatim>\<open>json.Marshal\<close> rejects with an error).
\<close>

datatype tag = Skip | Key string bool

datatype gvalue =
    GNil
  | GNilPtr
  | GBool bool
  | GInt int
  | GString string
  | GSlice "gvalue list"
  | GStruct "(tag \<times> gvalue) list"
  | GPtr gvalue
  | GChan

definition dq :: char where
  "dq = CHR 0x22"

definition bslash :: char where
  "bslash = CHR 0x5C"

definition hexdigit :: "nat \<Rightarrow> char" where
  "hexdigit n = ''0123456789abcdef'' ! (n mod 16)"

text \<open>
  String encoding of \<^verbatim>\<open>json.Marshal\<close> (HTML escaping on, as is the default). A byte below
  0x80: the quote and the backslash get a backslash; backspace, form feed, newline,
  carriage return and tab their short escapes; the other control bytes and \<^verbatim>\<open><\<close>, \<^verbatim>\<open>>\<close>,
  \<^verbatim>\<open>&\<close> a \<^verbatim>\<open>\u00XX\<close> escape; any other byte is copied.
\<close>

definition escape_byte :: "char \<Rightarrow> string" where
  "escape_byte c =
     (if c = dq \<or> c = bslash then [bslash, c]
      else if c = CHR 0x08 then [bslash, CHR ''b'']
      else if c = CHR 0x0C then [bslash, CHR ''f'']
      else if c = CHR 0x0A then [bslash, CHR ''n'']
      else if c = CHR 0x0D then [bslash, CHR ''r'']
      else if c = CHR 0x09 then [bslash, CHR ''t'']
      else if (of_char c :: nat) < 0x20 \<or> c = CHR ''<'' \<or> c = CHR ''>'' \<or> c = CHR ''&''
        then [bslash, CHR ''u'', CHR ''0'', CHR ''0'',
              hexdigit ((of_char c :: nat) div 16), hexdigit ((of_char c :: nat) mod 16)]
      else [c])"

text \<open>
  A byte from 0x80 on starts a rune. \<open>rune_size\<close> is the length of the well-formed UTF-8
  sequence at the head of the bytes, as \<^verbatim>\<open>utf8.DecodeRuneInString\<close> accepts it, and 0 when
  there is none. A byte that starts no well-formed sequence is replaced by \<^verbatim>\<open>\ufffd\<close>, the
  line and paragraph separators U+2028 and U+2029 are escaped, any other rune is copied.
\<close>

definition between :: "nat \<Rightarrow> char \<Rightarrow> nat \<Rightarrow> bool" where
  "between lo c hi = (lo \<le> of_char c \<and> (of_char c :: nat) \<le> hi)"

text \<open>The range of the second byte after the lead byte \<open>b0\<close>.\<close>

definition second_lo :: "char \<Rightarrow> nat" where
  "second_lo b0 = (if b0 = CHR 0xE0 then 0xA0 else if b0 = CHR 0xF0 then 0x90 else 0x80)"

definition second_hi :: "char \<Rightarrow> nat" where
  "second_hi b0 = (if b0 = CHR 0xED then 0x9F else if b0 = CHR 0xF4 then 0x8F else 0xBF)"

fun rune_size :: "string \<Rightarrow> nat" where
  "rune_size [] = 0"
| "rune_size (b0 # bs) =
     (if between 0xC2 b0 0xDF then
        (case bs of b1 # _ \<Rightarrow> if between 0x80 b1 0xBF then 2 else 0 | _ \<Rightarrow> 0)
      else if between 0xE0 b0 0xEF then
        (case bs of
           b1 # b2 # _ \<Rightarrow>
             if between (second_lo b0) b1 (second_hi b0) \<and> between 0x80 b2 0xBF then 3 else 0
         | _ \<Rightarrow> 0)
      else if between 0xF0 b0 0xF4 then
        (case bs of
           b1 # b2 # b3 # _ \<Rightarrow>
             if between (second_lo b0) b1 (second_hi b0) \<and> between 0x80 b2 0xBF
                \<and> between 0x80 b3 0xBF
             then 4 else 0
         | _ \<Rightarrow> 0)
      else 0)"

definition escape_rune :: "string \<Rightarrow> string" where
  "escape_rune bytes =
     (if bytes = [] then [bslash, CHR ''u'', CHR ''f'', CHR ''f'', CHR ''f'', CHR ''d'']
      else if bytes = [CHR 0xE2, CHR 0x80, CHR 0xA8]
        then [bslash, CHR ''u'', CHR ''2'', CHR ''0'', CHR ''2'', CHR ''8'']
      else if bytes = [CHR 0xE2, CHR 0x80, CHR 0xA9]
        then [bslash, CHR ''u'', CHR ''2'', CHR ''0'', CHR ''2'', CHR ''9'']
      else bytes)"

function encode_string :: "string \<Rightarrow> string" where
  "encode_string [] = []"
| "encode_string (b # bs) =
     (if (of_char b :: nat) < 0x80 then escape_byte b @ encode_string bs
      else escape_rune (take (rune_size (b # bs)) (b # bs))
             @ encode_string (drop (rune_size (b # bs) - 1) bs))"
  by pat_completeness auto
termination
  by (relation "measure length") auto

definition quote :: "string \<Rightarrow> string" where
  "quote s = dq # encode_string s @ [dq]"

definition digit_char :: "nat \<Rightarrow> char" where
  "digit_char n = ''0123456789'' ! (n mod 10)"

fun digits :: "nat \<Rightarrow> string" where
  "digits n = (if n < 10 then [digit_char n] else digits (n div 10) @ [digit_char n])"

declare digits.simps [simp del]

definition itoa :: "int \<Rightarrow> string" where
  "itoa i = (if i < 0 then CHR ''-'' # digits (nat (- i)) else digits (nat i))"

text \<open>\<^verbatim>\<open>isEmptyValue\<close> decides what an \<^verbatim>\<open>omitempty\<close> tag omits.\<close>

fun isEmptyValue :: "gvalue \<Rightarrow> bool" where
  "isEmptyValue GNil = True"
| "isEmptyValue GNilPtr = True"
| "isEmptyValue (GBool b) = (\<not> b)"
| "isEmptyValue (GInt i) = (i = 0)"
| "isEmptyValue (GString s) = (s = [])"
| "isEmptyValue (GSlice xs) = (xs = [])"
| "isEmptyValue (GStruct fs) = False"
| "isEmptyValue (GPtr v) = False"
| "isEmptyValue GChan = False"

fun join :: "string \<Rightarrow> string list \<Rightarrow> string" where
  "join sep [] = []"
| "join sep [x] = x"
| "join sep (x # y # ys) = x @ sep @ join sep (y # ys)"

text \<open>
  \<^verbatim>\<open>json.Marshal\<close>: \<open>None\<close> is a returned error. A struct is encoded field by field in
  declaration order; a field tagged \<^verbatim>\<open>json:"-"\<close> is skipped, as is an empty field tagged
  \<^verbatim>\<open>omitempty\<close>; an error in an encoded field fails the whole value.
\<close>

fun marshal :: "gvalue \<Rightarrow> string option"
  and marshal_elems :: "gvalue list \<Rightarrow> string list option"
  and marshal_fields :: "(tag \<times> gvalue) list \<Rightarrow> string list option" where
  "marshal GNil = Some ''null''"
| "marshal GNilPtr = Some ''null''"
| "marshal (GBool b) = Some (if b then ''true'' else ''false'')"
| "marshal (GInt i) = Some (itoa i)"
| "marshal (GString s) = Some (quote s)"
| "marshal (GSlice xs) =
     (case marshal_elems xs of None \<Rightarrow> None
      | Some ys \<Rightarrow> Some (''['' @ join '','' ys @ '']''))"
| "marshal (GStruct fs) =
     (case marshal_fields fs of None \<Rightarrow> None
      | Some ms \<Rightarrow> Some (''{'' @ join '','' ms @ ''}''))"
| "marshal (GPtr v) = marshal v"
| "marshal GChan = None"
| "marshal_elems [] = Some []"
| "marshal_elems (v # vs) =
     (case marshal v of None \<Rightarrow> None
      | Some y \<Rightarrow> (case marshal_elems vs of None \<Rightarrow> None | Some ys \<Rightarrow> Some (y # ys)))"
| "marshal_fields [] = Some []"
| "marshal_fields ((Skip, v) # fs) = marshal_fields fs"
| "marshal_fields ((Key k oe, v) # fs) =
     (if oe \<and> isEmptyValue v then marshal_fields fs
      else (case marshal v of None \<Rightarrow> None
            | Some y \<Rightarrow> (case marshal_fields fs of None \<Rightarrow> None
                          | Some ms \<Rightarrow> Some ((quote k @ '':'' @ y) # ms))))"

section \<open>The record composer (src/log.go: writeDoc, writeField, writeObject)\<close>

text \<open>
  The buffer is passed in and returned. \<^verbatim>\<open>writeField\<close> writes the key unescaped and writes no
  value when marshalling fails.
\<close>

definition writeField :: "string \<Rightarrow> string \<Rightarrow> gvalue \<Rightarrow> string" where
  "writeField buf key v =
     (let buf = buf @ [dq] @ key @ [dq] @ '':''
      in case marshal v of Some jsonValue \<Rightarrow> buf @ jsonValue | None \<Rightarrow> buf)"

definition writeObject :: "string \<Rightarrow> gvalue \<Rightarrow> string \<times> nat" where
  "writeObject buf v =
     (if v = GNil then (buf, 0)
      else case marshal v of
        Some b \<Rightarrow>
          (let len = length b in
           if len > 2 \<and> b ! 0 = CHR ''{'' \<and> b ! (len - 1) = CHR ''}''
           then (buf @ take (len - 2) (drop 1 b), len - 2)
           else (buf, 0))
      | None \<Rightarrow> (buf, 0))"

text \<open>
  \<^verbatim>\<open>writeDoc\<close>; \<open>time\<close> stands for \<^verbatim>\<open>time.Format(RFC3339Milli)\<close>, the text of the
  timestamp.
\<close>

definition writeDoc :: "string \<Rightarrow> string \<Rightarrow> string \<Rightarrow> gvalue \<Rightarrow> gvalue \<Rightarrow> string \<Rightarrow> string" where
  "writeDoc buf time level context customContext message =
     (let buf = buf @ ''{'';
          buf = writeField buf ''time'' (GString time);
          buf = buf @ '','';
          buf = writeField buf ''lvl'' (GString level);
          buf = buf @ '','';
          (buf, len) = writeObject buf context;
          buf = (if len > 0 then buf @ '','' else buf);
          (buf, len) = writeObject buf customContext;
          buf = (if len > 0 then buf @ '','' else buf);
          buf = writeField buf ''msg'' (GString message);
          buf = buf @ ''}''
      in buf @ [CHR 0x0A])"

section \<open>Log contexts (src/unnamed/part_002)\<close>

record LogContext =
  TransactionID :: string
  Correlator :: string
  Operation :: string
  Service :: string
  Component :: string
  User :: string
  Realm :: string
  Alarm :: string

record ReqLogContext =
  Method :: string
  Path :: string
  RemoteAddr :: string

record RespLogContext =
  Status :: int
  Latency :: int
  Location :: string

text \<open>The three struct types as Go values: the fields in declaration order with their tags.\<close>

definition LogContext_value :: "LogContext \<Rightarrow> gvalue" where
  "LogContext_value c = GStruct
     [(Key ''trans'' True, GString (TransactionID c)),
      (Key ''corr'' True, GString (Correlator c)),
      (Key ''op'' True, GString (Operation c)),
      (Key ''svc'' True, GString (Service c)),
      (Key ''comp'' True, GString (Component c)),
      (Key ''user'' True, GString (User c)),
      (Key ''realm'' True, GString (Realm c)),
      (Key ''alarm'' True, GString (Alarm c))]"

definition ReqLogContext_value :: "ReqLogContext \<Rightarrow> gvalue" where
  "ReqLogContext_value c = GStruct
     [(Key ''method'' True, GString (Method c)),
      (Key ''path'' True, GString (Path c)),
      (Key ''remoteaddr'' True, GString (RemoteAddr c))]"

definition RespLogContext_value :: "RespLogContext \<Rightarrow> gvalue" where
  "RespLogContext_value c = GStruct
     [(Key ''status'' True, GInt (Status c)),
      (Key ''latency'' True, GInt (Latency c)),
      (Key ''location'' True, GString (Location c))]"

definition emptyLogContext :: LogContext where
  "emptyLogContext = \<lparr>TransactionID = [], Correlator = [], Operation = [], Service = [],
     Component = [], User = [], Realm = [], Alarm = []\<rparr>"

section \<open>The logger (src/log.go)\<close>

datatype level = debugLevel | infoLevel | warnLevel | errorLevel | fatalLevel

text \<open>The values that \<^verbatim>\<open>iota\<close> gives the five constants.\<close>

fun level_int :: "level \<Rightarrow> nat" where
  "level_int debugLevel = 0"
| "level_int infoLevel = 1"
| "level_int warnLevel = 2"
| "level_int errorLevel = 3"
| "level_int fatalLevel = 4"

definition LogLevelNames :: "string list" where
  "LogLevelNames = [''DEBUG'', ''INFO'', ''WARN'', ''ERROR'', ''FATAL'']"

text \<open>
  An \<^verbatim>\<open>interface{}\<close> that a logger or a log call holds as its context: a Go value, or a
  pointer to a \<^verbatim>\<open>LogContext\<close> object of the store (the only implementation of the
  \<^verbatim>\<open>Context\<close> interface).
\<close>

datatype iface = IVal gvalue | ICtx nat

record Logger =
  out :: nat
  logLevel :: level
  "context" :: iface

text \<open>
  The store. \<^verbatim>\<open>*LogContext\<close> and \<^verbatim>\<open>*Logger\<close> values are addresses; an address below the
  allocation counter is an allocated object. \<open>sinks\<close> holds, for every \<^verbatim>\<open>io.Writer\<close>, the
  bytes written to it so far (writer 0 is \<^verbatim>\<open>os.Stdout\<close>). \<open>now\<close> is the text of
  \<^verbatim>\<open>time.Now().Format(RFC3339Milli)\<close>, \<open>mono\<close> the monotonic clock in nanoseconds, and
  \<open>uuid_src\<close> the results of the successive calls of \<^verbatim>\<open>uuid.NewUUID\<close> (\<open>None\<close> is an
  error).
\<close>

record World =
  contexts :: "nat \<Rightarrow> LogContext"
  next_context :: nat
  loggers :: "nat \<Rightarrow> Logger"
  next_logger :: nat
  defaultLogLevel :: level
  sinks :: "nat \<Rightarrow> string"
  now :: string
  mono :: int
  uuid_src :: "nat \<Rightarrow> string option"
  uuid_cnt :: nat

datatype panic = NilDereference | TypeAssertion

text \<open>A call either panics (the store as it was at that moment is kept) or returns.\<close>

type_synonym 'a result = "(panic \<times> World) + 'a"

definition resolve :: "World \<Rightarrow> iface \<Rightarrow> gvalue" where
  "resolve w i = (case i of IVal v \<Rightarrow> v | ICtx a \<Rightarrow> GPtr (LogContext_value (contexts w a)))"

definition NewLogger :: "World \<Rightarrow> nat \<times> World" where
  "NewLogger w =
     (next_logger w,
      w\<lparr>loggers := (loggers w)(next_logger w :=
           \<lparr>out = 0, logLevel = defaultLogLevel w, context = IVal GNil\<rparr>),
        next_logger := Suc (next_logger w)\<rparr>)"

definition SetLogContext :: "nat option \<Rightarrow> iface \<Rightarrow> World \<Rightarrow> World result" where
  "SetLogContext l c w =
     (case l of None \<Rightarrow> Inl (NilDereference, w)
      | Some p \<Rightarrow> Inr (w\<lparr>loggers := (loggers w)(p := (loggers w p)\<lparr>context := c\<rparr>)\<rparr>))"

definition GetLogContext :: "nat option \<Rightarrow> World \<Rightarrow> iface result" where
  "GetLogContext l w =
     (case l of None \<Rightarrow> Inl (NilDereference, w) | Some p \<Rightarrow> Inr (context (loggers w p)))"

text \<open>
  \<^verbatim>\<open>log\<close>. \<open>Sprintf\<close> stands for \<^verbatim>\<open>fmt.Sprintf\<close>. The sink is a writer that accepts the
  bytes; the mutex guards that one write and is not modelled.
\<close>

definition log ::
  "(string \<Rightarrow> gvalue list \<Rightarrow> string) \<Rightarrow> nat option \<Rightarrow> level \<Rightarrow> iface \<Rightarrow> string \<Rightarrow> gvalue list
     \<Rightarrow> World \<Rightarrow> World result" where
  "log Sprintf l lvl ctx message args w =
     (case l of None \<Rightarrow> Inl (NilDereference, w)
      | Some p \<Rightarrow>
          if level_int lvl < level_int (logLevel (loggers w p)) then Inr w
          else
            (let text = (if length args > 0 then Sprintf message args else message);
                 bytes = writeDoc [] (now w) (LogLevelNames ! level_int lvl)
                           (resolve w (context (loggers w p))) (resolve w ctx) text;
                 wr = out (loggers w p)
             in Inr (w\<lparr>sinks := (sinks w)(wr := sinks w wr @ bytes)\<rparr>)))"

definition Debug where
  "Debug Sprintf l message args w = log Sprintf l debugLevel (IVal GNil) message args w"

definition DebugC where
  "DebugC Sprintf l ctx message args w = log Sprintf l debugLevel ctx message args w"

definition Info where
  "Info Sprintf l message args w = log Sprintf l infoLevel (IVal GNil) message args w"

definition InfoC where
  "InfoC Sprintf l ctx message args w = log Sprintf l infoLevel ctx message args w"

definition Warn where
  "Warn Sprintf l message args w = log Sprintf l warnLevel (IVal GNil) message args w"

definition WarnC where
  "WarnC Sprintf l ctx message args w = log Sprintf l warnLevel ctx message args w"

definition Error where
  "Error Sprintf l message args w = log Sprintf l errorLevel (IVal GNil) message args w"

definition ErrorC where
  "ErrorC Sprintf l ctx message args w = log Sprintf l errorLevel ctx message args w"

definition Fatal where
  "Fatal Sprintf l message args w = log Sprintf l fatalLevel (IVal GNil) message args w"

definition FatalC where
  "FatalC Sprintf l ctx message args w = log Sprintf l fatalLevel ctx message args w"

section \<open>Requests and response writers (net/http)\<close>

text \<open>
  A header maps a (canonical) name to the list of its values: \<^verbatim>\<open>Get\<close> reads the first
  value, \<^verbatim>\<open>Add\<close> appends one, \<^verbatim>\<open>Set\<close> replaces them all.
\<close>

type_synonym header = "string \<Rightarrow> string list"

definition Header_Get :: "header \<Rightarrow> string \<Rightarrow> string" where
  "Header_Get h k = (case h k of [] \<Rightarrow> [] | v # vs \<Rightarrow> v)"

definition Header_Add :: "header \<Rightarrow> string \<Rightarrow> string \<Rightarrow> header" where
  "Header_Add h k v = h(k := h k @ [v])"

definition Header_Set :: "header \<Rightarrow> string \<Rightarrow> string \<Rightarrow> header" where
  "Header_Set h k v = h(k := [v])"

text \<open>
  What the request's \<^verbatim>\<open>context.Context\<close> holds under \<^verbatim>\<open>LoggerContextKey\<close>: nothing, a
  \<^verbatim>\<open>*Logger\<close> (\<open>None\<close> is the nil pointer), or a value of another type.
\<close>

datatype ctxvalue = NoValue | LoggerValue "nat option" | OtherValue

record Request =
  req_Header :: header
  req_Method :: string
  req_RequestURI :: string
  req_RemoteAddr :: string
  req_Context :: ctxvalue

text \<open>
  A response writer records the calls made on it: the header map, the status codes passed
  to \<^verbatim>\<open>WriteHeader\<close> in order, and the bytes passed to \<^verbatim>\<open>Write\<close>.
  \<^verbatim>\<open>LoggableResponseWriter\<close> wraps a writer and keeps the last status code.
\<close>

record Recorder =
  rec_Header :: header
  rec_Codes :: "int list"
  rec_Body :: string

datatype ResponseWriter = Base Recorder | Loggable int ResponseWriter

fun rw_Header :: "ResponseWriter \<Rightarrow> header" where
  "rw_Header (Base r) = rec_Header r"
| "rw_Header (Loggable st w) = rw_Header w"

fun rw_Header_Set :: "string \<Rightarrow> string \<Rightarrow> ResponseWriter \<Rightarrow> ResponseWriter" where
  "rw_Header_Set k v (Base r) = Base (r\<lparr>rec_Header := Header_Set (rec_Header r) k v\<rparr>)"
| "rw_Header_Set k v (Loggable st w) = Loggable st (rw_Header_Set k v w)"

fun WriteHeader :: "int \<Rightarrow> ResponseWriter \<Rightarrow> ResponseWriter" where
  "WriteHeader statusCode (Base r) = Base (r\<lparr>rec_Codes := rec_Codes r @ [statusCode]\<rparr>)"
| "WriteHeader statusCode (Loggable st w) = Loggable statusCode (WriteHeader statusCode w)"

fun Write :: "string \<Rightarrow> ResponseWriter \<Rightarrow> ResponseWriter" where
  "Write data (Base r) = Base (r\<lparr>rec_Body := rec_Body r @ data\<rparr>)"
| "Write data (Loggable st w) = Loggable st (Write data w)"

text \<open>
  \<^verbatim>\<open>WriteHeader\<close> of net/http panics on a status code that this check refuses; the
  functions above describe the calls that return.
\<close>

definition checkWriteHeaderCode :: "int \<Rightarrow> bool" where
  "checkWriteHeaderCode code = (100 \<le> code \<and> code \<le> 999)"

fun rw_Codes :: "ResponseWriter \<Rightarrow> int list" where
  "rw_Codes (Base r) = rec_Codes r"
| "rw_Codes (Loggable st w) = rw_Codes w"

fun rw_Body :: "ResponseWriter \<Rightarrow> string" where
  "rw_Body (Base r) = rec_Body r"
| "rw_Body (Loggable st w) = rw_Body w"

text \<open>
  A handler returns the writer it was given, after the calls it made on it. The two
  functions below read the fields of the \<^verbatim>\<open>LoggableResponseWriter\<close> that \<^verbatim>\<open>WithLog\<close>
  built once the handler has returned.
\<close>

fun lw_Status :: "ResponseWriter \<Rightarrow> int" where
  "lw_Status (Loggable st w) = st"
| "lw_Status (Base r) = 200"

fun lw_ResponseWriter :: "ResponseWriter \<Rightarrow> ResponseWriter" where
  "lw_ResponseWriter (Loggable st w) = w"
| "lw_ResponseWriter (Base r) = Base r"

type_synonym handler = "ResponseWriter \<Rightarrow> Request \<Rightarrow> World \<Rightarrow> (ResponseWriter \<times> World) result"

section \<open>The Context interface as implemented by LogContext (src/unnamed/part_002)\<close>

definition Clone :: "nat \<Rightarrow> World \<Rightarrow> nat \<times> World" where
  "Clone c w =
     (next_context w,
      w\<lparr>contexts := (contexts w)(next_context w := contexts w c),
        next_context := Suc (next_context w)\<rparr>)"

definition GetCorrelator :: "nat \<Rightarrow> World \<Rightarrow> string" where
  "GetCorrelator c w = Correlator (contexts w c)"

definition SetCorrelator :: "nat \<Rightarrow> string \<Rightarrow> World \<Rightarrow> World" where
  "SetCorrelator c corr w = w\<lparr>contexts := (contexts w)(c := (contexts w c)\<lparr>Correlator := corr\<rparr>)\<rparr>"

definition GetTransactionID :: "nat \<Rightarrow> World \<Rightarrow> string" where
  "GetTransactionID c w = TransactionID (contexts w c)"

definition SetTransactionID :: "nat \<Rightarrow> string \<Rightarrow> World \<Rightarrow> World" where
  "SetTransactionID c tid w =
     w\<lparr>contexts := (contexts w)(c := (contexts w c)\<lparr>TransactionID := tid\<rparr>)\<rparr>"

text \<open>\<^verbatim>\<open>&LogContext{}\<close>: a new object with empty fields.\<close>

definition newLogContext :: "World \<Rightarrow> nat \<times> World" where
  "newLogContext w =
     (next_context w,
      w\<lparr>contexts := (contexts w)(next_context w := emptyLogContext),
        next_context := Suc (next_context w)\<rparr>)"

section \<open>The middlewares (src/config.go, lines 280 to 417)\<close>

definition CorrelatorHTTPHeader :: string where
  "CorrelatorHTTPHeader = ''Unica-Correlator''"

definition RequestLogMessage :: string where
  "RequestLogMessage = ''Request''"

definition ResponseLogMessage :: string where
  "ResponseLogMessage = ''Response''"

definition newTransactionID :: "World \<Rightarrow> string \<times> World" where
  "newTransactionID w =
     (case uuid_src w (uuid_cnt w) of None \<Rightarrow> [] | Some u \<Rightarrow> u,
      w\<lparr>uuid_cnt := Suc (uuid_cnt w)\<rparr>)"

text \<open>\<^verbatim>\<open>InitContext\<close>; the request is returned with its header as the call leaves it.\<close>

definition InitContext :: "Request \<Rightarrow> nat \<Rightarrow> World \<Rightarrow> nat \<times> Request \<times> World" where
  "InitContext r ctxt w =
     (let (newCtxt, w) = Clone ctxt w;
          (tid, w) = newTransactionID w;
          corr = Header_Get (req_Header r) CorrelatorHTTPHeader;
          (corr, r) = (if corr = [] then
                         (tid, r\<lparr>req_Header := Header_Add (req_Header r) CorrelatorHTTPHeader tid\<rparr>)
                       else (corr, r));
          w = SetTransactionID newCtxt tid w;
          w = SetCorrelator newCtxt corr w
      in (newCtxt, r, w))"

text \<open>
  \<^verbatim>\<open>GetLogger\<close> as the file of \<^verbatim>\<open>InitContext\<close> has it (the two-valued type assertion),
  and as the other copy of the file has it (the one-valued assertion, which panics on
  anything that is not a \<^verbatim>\<open>*Logger\<close>).
\<close>

definition GetLogger :: "Request \<Rightarrow> panic + nat option" where
  "GetLogger r = (case req_Context r of LoggerValue l \<Rightarrow> Inr l | NoValue \<Rightarrow> Inr None | OtherValue \<Rightarrow> Inr None)"

definition GetLogger_assert :: "Request \<Rightarrow> panic + nat option" where
  "GetLogger_assert r =
     (case req_Context r of LoggerValue l \<Rightarrow> Inr l | NoValue \<Rightarrow> Inl TypeAssertion
      | OtherValue \<Rightarrow> Inl TypeAssertion)"


text \<open>
  \<^verbatim>\<open>DebugRequestC\<close>; \<open>Dump\<close> stands for \<^verbatim>\<open>httputil.DumpRequest\<close> (\<open>None\<close> is an error).
\<close>

definition DebugRequestC where
  "DebugRequestC Sprintf Dump l ctx message r w =
     (case l of None \<Rightarrow> Inl (NilDereference, w)
      | Some p \<Rightarrow>
          if level_int (logLevel (loggers w p)) \<le> level_int debugLevel then
            (case Dump r of
               Some dump \<Rightarrow> DebugC Sprintf l ctx ''%s. %s'' [GString message, GString dump] w
             | None \<Rightarrow> Inr w)
          else Inr w)"

definition DebugRequest where
  "DebugRequest Sprintf Dump l message r w = DebugRequestC Sprintf Dump l (IVal GNil) message r w"

text \<open>Integer division of Go: the quotient is truncated toward zero.\<close>

definition quo :: "int \<Rightarrow> int \<Rightarrow> int" where
  "quo a b = sgn a * sgn b * (\<bar>a\<bar> div \<bar>b\<bar>)"

text \<open>
  The body of \<^verbatim>\<open>if logger == nil\<close> in \<^verbatim>\<open>WithLog\<close>. Its \<^verbatim>\<open>logger := NewLogger()\<close> declares a
  new variable in the block: the logger it builds is not the one the rest of the function
  uses.
\<close>

definition newLoggerBlock :: "Request \<Rightarrow> World \<Rightarrow> (Request \<times> World) result" where
  "newLoggerBlock r w =
     (let (logger, w) = NewLogger w;
          (c0, w) = newLogContext w;
          (c, r, w) = InitContext r c0 w
      in case SetLogContext (Some logger) (ICtx c) w of Inl e \<Rightarrow> Inl e | Inr w \<Rightarrow> Inr (r, w))"

text \<open>
  \<^verbatim>\<open>WithLog\<close>, over the lookup of the logger (\<open>getLogger\<close>), \<^verbatim>\<open>fmt.Sprintf\<close> and
  \<^verbatim>\<open>httputil.DumpRequest\<close>.
\<close>

definition WithLog_over ::
  "(Request \<Rightarrow> panic + nat option) \<Rightarrow> (string \<Rightarrow> gvalue list \<Rightarrow> string) \<Rightarrow> (Request \<Rightarrow> string option)
     \<Rightarrow> handler \<Rightarrow> handler" where
  "WithLog_over getLogger Sprintf Dump next rw r w =
     (let start = mono w in
      case getLogger r of Inl e \<Rightarrow> Inl (e, w)
      | Inr logger \<Rightarrow>
      (case (if logger = None
             then (case newLoggerBlock r w of Inl e \<Rightarrow> Inl e | Inr (r, w) \<Rightarrow> Inr (True, r, w))
             else Inr (False, r, w)) of Inl e \<Rightarrow> Inl e
       | Inr (isNewLogger, r, w) \<Rightarrow>
      (case GetLogContext logger w of Inl e \<Rightarrow> Inl e
       | Inr (IVal v) \<Rightarrow> Inl (TypeAssertion, w)
       | Inr (ICtx logContext) \<Rightarrow>
      (let reqContext = \<lparr>Method = req_Method r, Path = req_RequestURI r,
                          RemoteAddr = req_RemoteAddr r\<rparr> in
       case InfoC Sprintf logger (IVal (ReqLogContext_value reqContext)) RequestLogMessage [] w of
         Inl e \<Rightarrow> Inl e
       | Inr w \<Rightarrow>
      (case DebugRequest Sprintf Dump logger RequestLogMessage r w of Inl e \<Rightarrow> Inl e
       | Inr w \<Rightarrow>
      (let lw = Loggable 200 rw;
           lw = rw_Header_Set CorrelatorHTTPHeader (GetCorrelator logContext w) lw in
       case next lw (if isNewLogger then r\<lparr>req_Context := LoggerValue logger\<rparr> else r) w of
         Inl e \<Rightarrow> Inl e
       | Inr (lw, w) \<Rightarrow>
      (let respContext = \<lparr>Status = lw_Status lw,
                           Latency = quo (mono w - start) 1000000,
                           Location = Header_Get (rw_Header lw) ''Location''\<rparr> in
       case InfoC Sprintf logger (IVal (RespLogContext_value respContext)) ResponseLogMessage [] w of
         Inl e \<Rightarrow> Inl e
       | Inr w \<Rightarrow> Inr (lw_ResponseWriter lw, w))))))))"

definition WithLog where
  "WithLog Sprintf Dump next rw r w = WithLog_over GetLogger Sprintf Dump next rw r w"

section \<open>Errors (src/log.go, lines 303 to 415)\<close>

record Error =
  err_Message :: string
  err_Status :: int
  err_Alarm :: string
  err_Code :: string
  err_Description :: string

definition Error_value :: "Error \<Rightarrow> gvalue" where
  "Error_value e = GStruct
     [(Skip, GString (err_Message e)),
      (Skip, GInt (err_Status e)),
      (Skip, GString (err_Alarm e)),
      (Key ''error'' False, GString (err_Code e)),
      (Key ''error_description'' True, GString (err_Description e))]"

text \<open>A Go \<^verbatim>\<open>error\<close>: a \<^verbatim>\<open>*Error\<close> of this package, or another error with its text.\<close>

datatype goerror = TypedError Error | OtherError string

fun error_Error :: "goerror \<Rightarrow> string" where
  "error_Error (TypedError e) = err_Message e"
| "error_Error (OtherError s) = s"

definition Response :: "Error \<Rightarrow> ResponseWriter \<Rightarrow> ResponseWriter" where
  "Response e rw =
     (case marshal (GPtr (Error_value e)) of
        None \<Rightarrow> WriteHeader 500 rw
      | Some data \<Rightarrow>
          Write data (WriteHeader (err_Status e)
            (rw_Header_Set ''Content-Type'' ''application/json'' rw)))"

record HttpResponse =
  resp_StatusCode :: int
  resp_Header :: header
  resp_Body :: string

definition GetResponse :: "Error \<Rightarrow> HttpResponse" where
  "GetResponse e =
     (let r = \<lparr>resp_StatusCode = 0, resp_Header = (\<lambda>k. []), resp_Body = []\<rparr> in
      case marshal (GPtr (Error_value e)) of
        None \<Rightarrow> r\<lparr>resp_StatusCode := 500\<rparr>
      | Some data \<Rightarrow>
          r\<lparr>resp_Header := Header_Add (\<lambda>k. []) ''Content-Type'' ''application/json'',
            resp_StatusCode := err_Status e,
            resp_Body := data\<rparr>)"

definition NewServerError :: "string \<Rightarrow> Error" where
  "NewServerError message =
     \<lparr>err_Message = message, err_Status = 500, err_Alarm = [], err_Code = ''server_error'',
      err_Description = []\<rparr>"

definition ReplyWithError ::
  "(string \<Rightarrow> gvalue list \<Rightarrow> string) \<Rightarrow> ResponseWriter \<Rightarrow> Request \<Rightarrow> goerror \<Rightarrow> World
     \<Rightarrow> (ResponseWriter \<times> World) result" where
  "ReplyWithError Sprintf rw r err w =
     (case GetLogger r of Inl p \<Rightarrow> Inl (p, w)
      | Inr logger \<Rightarrow>
     (case err of
        TypedError e \<Rightarrow>
          (case (if err_Status e \<ge> 400 \<and> err_Status e < 500
                 then Info Sprintf logger (error_Error err) [] w
                 else if err_Alarm e \<noteq> []
                 then ErrorC Sprintf logger
                        (IVal (LogContext_value (emptyLogContext\<lparr>Alarm := err_Alarm e\<rparr>)))
                        (error_Error err) [] w
                 else Error Sprintf logger (error_Error err) [] w) of
             Inl p \<Rightarrow> Inl p
           | Inr w \<Rightarrow> Inr (Response e rw, w))
      | OtherError s \<Rightarrow>
          (case Error Sprintf logger (error_Error err) [] w of
             Inl p \<Rightarrow> Inl p
           | Inr w \<Rightarrow> Inr (Response (NewServerError []) rw, w))))"

section \<open>What a record is made of\<close>

text \<open>
  The specification describes a record by its members. A context contributes its
  flattened fields: if it is a struct (possibly behind pointers) that can be encoded, the
  fields that are neither skipped nor omitted as empty, in declaration order, each as
  \<^verbatim>\<open>"key":value\<close>; otherwise nothing.
\<close>

fun fields_of :: "gvalue \<Rightarrow> (tag \<times> gvalue) list option" where
  "fields_of (GStruct fs) = Some fs"
| "fields_of (GPtr v) = fields_of v"
| "fields_of v = None"

fun emitted :: "(tag \<times> gvalue) list \<Rightarrow> (string \<times> gvalue) list" where
  "emitted [] = []"
| "emitted ((Skip, v) # fs) = emitted fs"
| "emitted ((Key k oe, v) # fs) =
     (if oe \<and> isEmptyValue v then emitted fs else (k, v) # emitted fs)"

definition render :: "string \<times> gvalue \<Rightarrow> string" where
  "render f = quote (fst f) @ '':'' @ the (marshal (snd f))"

definition flattened :: "gvalue \<Rightarrow> string list" where
  "flattened v =
     (case fields_of v of None \<Rightarrow> []
      | Some fs \<Rightarrow>
          if list_all (\<lambda>f. marshal (snd f) \<noteq> None) (emitted fs)
          then map render (emitted fs) else [])"

text \<open>A member whose value is a string.\<close>

definition member :: "string \<Rightarrow> string \<Rightarrow> string" where
  "member k s = [dq] @ k @ [dq] @ '':'' @ quote s"

text \<open>A member whose value is a number.\<close>

definition member_int :: "string \<Rightarrow> int \<Rightarrow> string" where
  "member_int k i = [dq] @ k @ [dq] @ '':'' @ itoa i"

text \<open>The record with the given members between \<^verbatim>\<open>time\<close>, \<^verbatim>\<open>lvl\<close> and \<^verbatim>\<open>msg\<close>.\<close>

definition record_of :: "string \<Rightarrow> string \<Rightarrow> string list \<Rightarrow> string \<Rightarrow> string" where
  "record_of time level ms message =
     ''{'' @ join '','' ([member ''time'' time, member ''lvl'' level] @ ms @ [member ''msg'' message])
       @ ''}'' @ [CHR 0x0A]"

text \<open>The keys and values of the two string-only context types, in declaration order.\<close>

definition LogContext_fields :: "LogContext \<Rightarrow> (string \<times> string) list" where
  "LogContext_fields c =
     [(''trans'', TransactionID c), (''corr'', Correlator c), (''op'', Operation c),
      (''svc'', Service c), (''comp'', Component c), (''user'', User c),
      (''realm'', Realm c), (''alarm'', Alarm c)]"

definition ReqLogContext_fields :: "ReqLogContext \<Rightarrow> (string \<times> string) list" where
  "ReqLogContext_fields c =
     [(''method'', Method c), (''path'', Path c), (''remoteaddr'', RemoteAddr c)]"

text \<open>The body that the specification gives an error on the wire.\<close>

definition wire_body :: "string \<Rightarrow> string \<Rightarrow> string" where
  "wire_body code description =
     ''{'' @ member ''error'' code @
       (if description = [] then [] else '','' @ member ''error_description'' description) @ ''}''"

text \<open>
  Reading a JSON text: a position is outside of every string literal, inside one, or inside
  one just after a backslash. \<open>objects\<close> counts the opening braces outside of string
  literals, that is the objects of the text: a record without nested objects has exactly
  one, its own.
\<close>

datatype lex = Outside | Inside | Escaped

fun lex_step :: "lex \<Rightarrow> char \<Rightarrow> lex" where
  "lex_step Outside c = (if c = dq then Inside else Outside)"
| "lex_step Inside c = (if c = dq then Outside else if c = bslash then Escaped else Inside)"
| "lex_step Escaped c = Inside"

fun objects_from :: "lex \<Rightarrow> string \<Rightarrow> nat" where
  "objects_from st [] = 0"
| "objects_from st (c # cs) =
     (if st = Outside \<and> c = CHR ''{'' then 1 else 0) + objects_from (lex_step st c) cs"

definition objects :: "string \<Rightarrow> nat" where
  "objects s = objects_from Outside s"

text \<open>A text that holds no object and ends outside of string literals.\<close>

definition object_free :: "string \<Rightarrow> bool" where
  "object_free s = (foldl lex_step Outside s = Outside \<and> objects_from Outside s = 0)"

text \<open>
  A value that holds no struct: a string, a number, a boolean, nil, or a pointer to or a
  slice of such values (a channel has no encoding at all). A flat context is one all of
  whose encoded fields are such values.
\<close>

fun struct_free :: "gvalue \<Rightarrow> bool" where
  "struct_free GNil = True"
| "struct_free GNilPtr = True"
| "struct_free (GBool b) = True"
| "struct_free (GInt i) = True"
| "struct_free (GString s) = True"
| "struct_free (GSlice xs) = list_all struct_free xs"
| "struct_free (GStruct fs) = False"
| "struct_free (GPtr v) = struct_free v"
| "struct_free GChan = True"

definition flat_context :: "gvalue \<Rightarrow> bool" where
  "flat_context v =
     (case fields_of v of None \<Rightarrow> True
      | Some fs \<Rightarrow> list_all (\<lambda>f. struct_free (snd f)) (emitted fs))"

section \<open>Observing the store\<close>

text \<open>
  \<open>write_sink\<close> is the store after the logger at \<open>p\<close> has written the bytes to its sink;
  \<open>written\<close> says that a call returned and that the sink of the logger at \<open>p\<close> is not
  what it was; \<open>level_name\<close> is the canonical name of a level.
\<close>

definition write_sink :: "World \<Rightarrow> nat \<Rightarrow> string \<Rightarrow> World" where
  "write_sink w p bytes =
     w\<lparr>sinks := (sinks w)(out (loggers w p) := sinks w (out (loggers w p)) @ bytes)\<rparr>"

definition written :: "World \<Rightarrow> nat \<Rightarrow> World result \<Rightarrow> bool" where
  "written w p r =
     (case r of Inl e \<Rightarrow> False
      | Inr w' \<Rightarrow> sinks w' (out (loggers w p)) \<noteq> sinks w (out (loggers w p)))"

definition level_name :: "level \<Rightarrow> string" where
  "level_name lvl = (case lvl of debugLevel \<Rightarrow> ''DEBUG'' | infoLevel \<Rightarrow> ''INFO''
     | warnLevel \<Rightarrow> ''WARN'' | errorLevel \<Rightarrow> ''ERROR'' | fatalLevel \<Rightarrow> ''FATAL'')"

text \<open>
  What a call of \<^verbatim>\<open>log\<close> is to emit according to the specification: nothing below the
  minimum level, and otherwise the record of the timestamp, the level name, the fields
  of the bound context, the fields of the context of the call, and the message, which is
  formatted only when there are arguments.
\<close>

definition emission ::
  "(string \<Rightarrow> gvalue list \<Rightarrow> string) \<Rightarrow> World \<Rightarrow> nat \<Rightarrow> level \<Rightarrow> iface \<Rightarrow> string \<Rightarrow> gvalue list
     \<Rightarrow> string" where
  "emission Sprintf w p lvl ctx message args =
     (if level_int lvl < level_int (logLevel (loggers w p)) then []
      else record_of (now w) (level_name lvl)
             (flattened (resolve w (context (loggers w p))) @ flattened (resolve w ctx))
             (if args = [] then message else Sprintf message args))"




text \<open>
  A mutation of a \<^verbatim>\<open>LogContext\<close> object through a pointer to it: one of the two setters of
  the \<^verbatim>\<open>Context\<close> interface, or an assignment to its fields.
\<close>

datatype mutation =
    CallSetCorrelator string
  | CallSetTransactionID string
  | Assign "LogContext \<Rightarrow> LogContext"

fun mutate :: "nat \<Rightarrow> mutation \<Rightarrow> World \<Rightarrow> World" where
  "mutate a (CallSetCorrelator corr) w = SetCorrelator a corr w"
| "mutate a (CallSetTransactionID tid) w = SetTransactionID a tid w"
| "mutate a (Assign f) w = w\<lparr>contexts := (contexts w)(a := f (contexts w a))\<rparr>"

fun mutate_all :: "nat \<Rightarrow> mutation list \<Rightarrow> World \<Rightarrow> World" where
  "mutate_all a [] w = w"
| "mutate_all a (m # ms) w = mutate_all a ms (mutate a m w)"

section \<open>Example values\<close>

text \<open>A stand-in for \<^verbatim>\<open>fmt.Sprintf\<close> in the examples: it keeps the format and drops the arguments.\<close>

definition example_Sprintf :: "string \<Rightarrow> gvalue list \<Rightarrow> string" where
  "example_Sprintf message args = message"

definition example_world :: World where
  "example_world =
     \<lparr>contexts = (\<lambda>a. emptyLogContext), next_context = 1,
      loggers = (\<lambda>p. \<lparr>out = 0, logLevel = infoLevel, context = IVal GNil\<rparr>), next_logger = 1,
      defaultLogLevel = infoLevel, sinks = (\<lambda>s. []), now = ''2017-11-13T08:01:51.335Z'',
      mono = 0, uuid_src = (\<lambda>n. Some ''e7fc31ab-c848-11e7-8ed5-186590e007bb''), uuid_cnt = 0\<rparr>"

text \<open>The same store with a channel, which has no encoding, as the bound context.\<close>

definition example_world_chan :: World where
  "example_world_chan =
     example_world\<lparr>loggers := (\<lambda>p. \<lparr>out = 0, logLevel = infoLevel, context = IVal GChan\<rparr>)\<rparr>"

definition example_request :: Request where
  "example_request =
     \<lparr>req_Header = (\<lambda>k. []), req_Method = ''GET'', req_RequestURI = ''/users'',
      req_RemoteAddr = ''192.0.2.1:1234'', req_Context = NoValue\<rparr>"

definition example_logged_request :: Request where
  "example_logged_request = example_request\<lparr>req_Context := LoggerValue (Some 0)\<rparr>"


definition example_writer :: ResponseWriter where
  "example_writer = Base \<lparr>rec_Header = (\<lambda>k. []), rec_Codes = [], rec_Body = []\<rparr>"

definition example_error :: "int \<Rightarrow> string \<Rightarrow> Error" where
  "example_error status alarm =
     \<lparr>err_Message = ''log message'', err_Status = status, err_Alarm = alarm,
      err_Code = ''invalid'', err_Description = ''some error''\<rparr>"

section \<open>The encoder and the composer\<close>

lemma quote_nonempty: "quote s \<noteq> []"
  by (simp add: quote_def)

lemma hd_quote: "hd (quote s) = dq"
  by (simp add: quote_def)

lemma digit_char_neq:
  "digit_char n \<noteq> CHR ''{'' \<and> digit_char n \<noteq> CHR 0x0A \<and> digit_char n \<noteq> dq"
proof -
  have "list_all (\<lambda>c. c \<noteq> CHR ''{'' \<and> c \<noteq> CHR 0x0A \<and> c \<noteq> dq) ''0123456789''"
    by (simp add: dq_def)
  then have "\<forall>i < length ''0123456789''. ''0123456789'' ! i \<noteq> CHR ''{''
      \<and> ''0123456789'' ! i \<noteq> CHR 0x0A \<and> ''0123456789'' ! i \<noteq> dq"
    unfolding list_all_length .
  moreover have "n mod 10 < length ''0123456789''" by simp
  ultimately show ?thesis unfolding digit_char_def by blast
qed

lemma digits_nonempty: "digits n \<noteq> []"
  by (subst digits.simps) simp

lemma digits_chars: "list_all (\<lambda>c. c \<noteq> CHR ''{'' \<and> c \<noteq> CHR 0x0A \<and> c \<noteq> dq) (digits n)"
proof (induction n rule: digits.induct)
  case (1 n)
  show ?case
  proof (cases "n < 10")
    case True
    then show ?thesis using digit_char_neq [of n] by (subst digits.simps) simp
  next
    case False
    then have "list_all (\<lambda>c. c \<noteq> CHR ''{'' \<and> c \<noteq> CHR 0x0A \<and> c \<noteq> dq) (digits (n div 10))"
      using 1 by simp
    then show ?thesis using False digit_char_neq [of n] by (subst digits.simps) simp
  qed
qed

lemma itoa_nonempty: "itoa i \<noteq> []"
  by (simp add: itoa_def digits_nonempty)

lemma itoa_chars: "list_all (\<lambda>c. c \<noteq> CHR ''{'' \<and> c \<noteq> CHR 0x0A \<and> c \<noteq> dq) (itoa i)"
  by (simp add: itoa_def digits_chars) (simp add: dq_def)

lemma hd_itoa: "hd (itoa i) \<noteq> CHR ''{''"
proof -
  have "hd (itoa i) \<in> set (itoa i)" using itoa_nonempty by simp
  then show ?thesis using itoa_chars [of i] unfolding list_all_iff by blast
qed

lemma marshal_non_object:
  "fields_of v = None \<Longrightarrow> marshal v = Some b \<Longrightarrow> b \<noteq> [] \<and> hd b \<noteq> CHR ''{''"
proof (induction v arbitrary: b rule: fields_of.induct)
  case (1 fs)
  then show ?case by simp
next
  case (2 v)
  then show ?case by simp
qed (auto simp: itoa_nonempty hd_itoa quote_nonempty hd_quote dq_def split: option.splits if_splits)

lemma marshal_fields_emitted:
  "marshal_fields fs =
     (if list_all (\<lambda>f. marshal (snd f) \<noteq> None) (emitted fs)
      then Some (map render (emitted fs)) else None)"
  by (induction fs rule: emitted.induct) (auto simp: render_def split: option.splits)

lemma marshal_object:
  "fields_of v = Some fs \<Longrightarrow>
     marshal v = (case marshal_fields fs of None \<Rightarrow> None
                  | Some ms \<Rightarrow> Some (''{'' @ join '','' ms @ ''}''))"
  by (induction v rule: fields_of.induct) auto

lemma join_Nil_iff: "list_all (\<lambda>x. x \<noteq> []) xs \<Longrightarrow> (join sep xs = []) = (xs = [])"
  by (induction sep xs rule: join.induct) auto

lemma join_append:
  "ys \<noteq> [] \<Longrightarrow> join sep (xs @ ys) = (if xs = [] then join sep ys else join sep xs @ sep @ join sep ys)"
proof (induction sep xs rule: join.induct)
  case (1 sep)
  then show ?case by simp
next
  case (2 sep x)
  then show ?case by (cases ys) auto
next
  case (3 sep x y ys)
  then show ?case by simp
qed

lemma render_nonempty: "render f \<noteq> []"
  by (simp add: render_def quote_nonempty)

lemma flattened_nonempty: "list_all (\<lambda>x. x \<noteq> []) (flattened v)"
  by (auto simp: flattened_def list_all_iff render_nonempty split: option.splits)

lemma writeObject_flattened:
  "writeObject buf v = (buf @ join '','' (flattened v), length (join '','' (flattened v)))"
proof (cases "fields_of v")
  case None
  then have fl: "flattened v = []" by (simp add: flattened_def)
  show ?thesis
  proof (cases "marshal v")
    case N: None
    then show ?thesis using fl by (simp add: writeObject_def)
  next
    case (Some b)
    with None have "b \<noteq> [] \<and> hd b \<noteq> CHR ''{''" by (rule marshal_non_object)
    then have "b ! 0 \<noteq> CHR ''{''" by (cases b) simp_all
    then show ?thesis using fl Some by (simp add: writeObject_def Let_def)
  qed
next
  case (Some fs)
  then have ne: "v \<noteq> GNil" by auto
  show ?thesis
  proof (cases "list_all (\<lambda>f. marshal (snd f) \<noteq> None) (emitted fs)")
    case False
    then have "marshal v = None" using Some by (simp add: marshal_object marshal_fields_emitted)
    moreover have "flattened v = []" using False Some by (simp add: flattened_def)
    ultimately show ?thesis by (simp add: writeObject_def)
  next
    case True
    define ms where "ms = flattened v"
    have ms: "ms = map render (emitted fs)" using True Some by (simp add: flattened_def ms_def)
    have m: "marshal v = Some (''{'' @ join '','' ms @ ''}'')"
      using Some True by (simp add: marshal_object marshal_fields_emitted ms)
    have nn: "(join '','' ms = []) = (ms = [])"
      unfolding ms_def by (rule join_Nil_iff) (rule flattened_nonempty)
    show ?thesis
    proof (cases "ms = []")
      case T: True
      then show ?thesis using m ne by (simp add: writeObject_def ms_def [symmetric])
    next
      case F: False
      then have "join '','' ms \<noteq> []" using nn by simp
      then have "length (join '','' ms) > 0" by simp
      then show ?thesis using m ne
        by (simp add: writeObject_def ms_def [symmetric] Let_def nth_append)
    qed
  qed
qed

lemma writeField_member: "writeField buf k (GString s) = buf @ member k s"
  by (simp add: writeField_def member_def)

lemma member_nonempty: "member k s \<noteq> []"
  by (simp add: member_def)

lemma writeDoc_join:
  "writeDoc buf time level c1 c2 message =
     buf @ record_of time level (flattened c1 @ flattened c2) message"
proof -
  have j1: "(join '','' (flattened c1) = []) = (flattened c1 = [])"
    by (rule join_Nil_iff) (rule flattened_nonempty)
  have j2: "(join '','' (flattened c2) = []) = (flattened c2 = [])"
    by (rule join_Nil_iff) (rule flattened_nonempty)
  have a: "join '','' (flattened c2 @ [member ''msg'' message]) =
      (if flattened c2 = [] then member ''msg'' message
       else join '','' (flattened c2) @ '','' @ member ''msg'' message)"
    by (simp add: join_append)
  have b: "join '','' (flattened c1 @ flattened c2 @ [member ''msg'' message]) =
      (if flattened c1 = [] then join '','' (flattened c2 @ [member ''msg'' message])
       else join '','' (flattened c1) @ '','' @ join '','' (flattened c2 @ [member ''msg'' message]))"
    by (simp add: join_append)
  have c: "join '',''
       ([member ''time'' time, member ''lvl'' level] @ flattened c1 @ flattened c2 @ [member ''msg'' message])
      = member ''time'' time @ '','' @ member ''lvl'' level @ '','' @
          join '','' (flattened c1 @ flattened c2 @ [member ''msg'' message])"
    by (cases "flattened c1 @ flattened c2 @ [member ''msg'' message]") simp_all
  show ?thesis
    unfolding record_of_def append_assoc c b a
    by (simp add: writeDoc_def writeObject_flattened writeField_member j1 j2 Let_def)
qed


lemma hexdigit_neq: "hexdigit n \<noteq> CHR 0x0A \<and> hexdigit n \<noteq> dq \<and> hexdigit n \<noteq> bslash"
proof -
  have "list_all (\<lambda>c. c \<noteq> CHR 0x0A \<and> c \<noteq> dq \<and> c \<noteq> bslash) ''0123456789abcdef''"
    by (simp add: dq_def bslash_def)
  then have "\<forall>i < length ''0123456789abcdef''.
      ''0123456789abcdef'' ! i \<noteq> CHR 0x0A \<and> ''0123456789abcdef'' ! i \<noteq> dq
      \<and> ''0123456789abcdef'' ! i \<noteq> bslash"
    unfolding list_all_length .
  moreover have "n mod 16 < length ''0123456789abcdef''" by simp
  ultimately show ?thesis unfolding hexdigit_def by blast
qed

lemma escape_byte_nl: "CHR 0x0A \<notin> set (escape_byte c)"
  using hexdigit_neq [of "of_char c div 16"] hexdigit_neq [of "of_char c mod 16"]
  by (auto simp: escape_byte_def dq_def bslash_def)

lemma high_byte: "(0x80::nat) \<le> of_char c \<Longrightarrow> c \<noteq> CHR 0x0A \<and> c \<noteq> dq \<and> c \<noteq> bslash \<and> c \<noteq> CHR ''{''"
  by (auto simp: dq_def bslash_def)

lemma second_byte_high: "between (second_lo b0) b1 hi \<Longrightarrow> (0x80::nat) \<le> of_char b1"
  by (simp add: between_def second_lo_def split: if_splits)

lemma between_high: "between 0x80 c hi \<Longrightarrow> (0x80::nat) \<le> of_char c"
  by (simp add: between_def)

lemma rune_bytes_high:
  assumes "(0x80::nat) \<le> of_char b"
  shows "list_all (\<lambda>c. (0x80::nat) \<le> of_char c) (take (rune_size (b # bs)) (b # bs))"
proof (cases bs)
  case Nil
  then show ?thesis using assms by simp
next
  case c1: (Cons b1 r1)
  show ?thesis
  proof (cases r1)
    case Nil
    then show ?thesis using assms c1 by (auto dest: between_high)
  next
    case c2: (Cons b2 r2)
    show ?thesis
    proof (cases r2)
      case Nil
      then show ?thesis using assms c1 c2
        by (auto dest: between_high second_byte_high)
    next
      case c3: (Cons b3 r3)
      then show ?thesis using assms c1 c2
        by (auto dest: between_high second_byte_high)
    qed
  qed
qed

lemma escape_rune_nl:
  "list_all (\<lambda>c. (0x80::nat) \<le> of_char c) bytes \<Longrightarrow> CHR 0x0A \<notin> set (escape_rune bytes)"
proof -
  assume a: "list_all (\<lambda>c. (0x80::nat) \<le> of_char c) bytes"
  have "CHR 0x0A \<notin> set bytes"
    using a high_byte unfolding list_all_iff by blast
  then show ?thesis by (simp add: escape_rune_def bslash_def)
qed

lemma encode_string_nl: "CHR 0x0A \<notin> set (encode_string s)"
proof (induction s rule: encode_string.induct)
  case 1
  then show ?case by simp
next
  case (2 b bs)
  show ?case
  proof (cases "(of_char b :: nat) < 0x80")
    case True
    then show ?thesis using 2 by (simp add: escape_byte_nl)
  next
    case False
    then have "(0x80::nat) \<le> of_char b" by simp
    then have "CHR 0x0A \<notin> set (escape_rune (take (rune_size (b # bs)) (b # bs)))"
      by (intro escape_rune_nl rune_bytes_high)
    then show ?thesis using False 2 by simp
  qed
qed

lemma quote_nl: "CHR 0x0A \<notin> set (quote s)"
  by (simp add: quote_def dq_def encode_string_nl)

lemma itoa_nl: "CHR 0x0A \<notin> set (itoa i)"
  using itoa_chars [of i] unfolding list_all_iff by blast

lemma join_nl:
  "list_all (\<lambda>x. CHR 0x0A \<notin> set x) xs \<Longrightarrow> CHR 0x0A \<notin> set sep \<Longrightarrow> CHR 0x0A \<notin> set (join sep xs)"
  by (induction sep xs rule: join.induct) auto

lemma marshal_nl:
  "(\<forall>b. marshal v = Some b \<longrightarrow> CHR 0x0A \<notin> set b)"
  "(\<forall>ys. marshal_elems vs = Some ys \<longrightarrow> list_all (\<lambda>x. CHR 0x0A \<notin> set x) ys)"
  "(\<forall>ms. marshal_fields fs = Some ms \<longrightarrow> list_all (\<lambda>x. CHR 0x0A \<notin> set x) ms)"
proof (induction v and vs and fs rule: marshal_marshal_elems_marshal_fields.induct)
  case (6 xs)
  then show ?case by (auto split: option.splits simp: join_nl)
next
  case (7 fs)
  then show ?case by (auto split: option.splits simp: join_nl)
next
  case (11 v vs)
  then show ?case by (auto split: option.splits)
next
  case (14 k oe v fs)
  then show ?case by (auto split: option.splits simp: quote_nl)
qed (simp_all add: itoa_nl quote_nl)

lemma flattened_Nil:
  assumes "marshal v = Some b" and "b = ''{}'' \<or> hd b \<noteq> CHR ''{''"
  shows "flattened v = []"
proof (cases "fields_of v")
  case None
  then show ?thesis by (simp add: flattened_def)
next
  case (Some fs)
  have all: "list_all (\<lambda>f. marshal (snd f) \<noteq> None) (emitted fs)"
    using assms(1) Some by (simp add: marshal_object marshal_fields_emitted split: if_splits)
  then have fl: "flattened v = map render (emitted fs)"
    using Some by (simp add: flattened_def)
  have b: "b = ''{'' @ join '','' (flattened v) @ ''}''"
    using assms(1) Some all fl by (simp add: marshal_object marshal_fields_emitted)
  then have "hd b = CHR ''{''" by simp
  with assms(2) have "b = ''{}''" by simp
  with b have "join '','' (flattened v) = []" by simp
  then show ?thesis using join_Nil_iff [OF flattened_nonempty] by blast
qed

lemma flattened_unserializable: "marshal v = None \<Longrightarrow> flattened v = []"
proof (cases "fields_of v")
  case None
  then show ?thesis by (simp add: flattened_def)
next
  case (Some fs)
  assume "marshal v = None"
  then have "\<not> list_all (\<lambda>f. marshal (snd f) \<noteq> None) (emitted fs)"
    using Some by (simp add: marshal_object marshal_fields_emitted split: if_splits)
  then show ?thesis using Some by (simp add: flattened_def)
qed

lemma writeDoc_record: "writeDoc [] time level c1 c2 message = record_of time level (flattened c1 @ flattened c2) message"
  using writeDoc_join [of "[]"] by simp

text \<open>
  Claim C10. A context whose encoding is not an object with at least one key (the nil
  interface, a value encoded as \<^verbatim>\<open>{}\<close>, or a value encoded as a string, a number, a boolean,
  \<^verbatim>\<open>null\<close> or an array) makes \<^verbatim>\<open>writeObject\<close> write nothing and report length 0, so that
  \<^verbatim>\<open>writeDoc\<close> writes no separator for it: the record consists of \<^verbatim>\<open>time\<close>, \<^verbatim>\<open>lvl\<close>, the
  fields of the other context and \<^verbatim>\<open>msg\<close>, whichever of the two positions the context is in.
\<close>

theorem writeDoc_without_fields:
  assumes "marshal v = Some b" and "b = ''{}'' \<or> hd b \<noteq> CHR ''{''"
  shows "writeObject buf v = (buf, 0)
       \<and> writeDoc [] time level v c message = record_of time level (flattened c) message
       \<and> writeDoc [] time level c v message = record_of time level (flattened c) message"
  using flattened_Nil [OF assms] by (simp add: writeObject_flattened writeDoc_record)

theorem writeDoc_without_fields_witness:
  "writeObject ''x'' GNil = (''x'', 0)
   \<and> writeDoc [] ''t'' ''INFO'' (GStruct [(Key ''a'' True, GString [])]) GNil ''m'' = record_of ''t'' ''INFO'' [] ''m''
   \<and> writeDoc [] ''t'' ''INFO'' (GString ''s'') GNil ''m'' = record_of ''t'' ''INFO'' [] ''m''
   \<and> writeDoc [] ''t'' ''INFO'' GNil (GInt 7) ''m'' = record_of ''t'' ''INFO'' [] ''m''
   \<and> writeDoc [] ''t'' ''INFO'' GNil (GBool True) ''m'' = record_of ''t'' ''INFO'' [] ''m''
   \<and> writeDoc [] ''t'' ''INFO'' (GSlice [GBool True]) GNil ''m'' = record_of ''t'' ''INFO'' [] ''m''"
proof -
  have n: "marshal GNil = Some ''null''" "''null'' = ''{}'' \<or> hd ''null'' \<noteq> CHR ''{''" by simp_all
  have e: "marshal (GStruct [(Key ''a'' True, GString [])]) = Some ''{}''"
       "''{}'' = ''{}'' \<or> hd ''{}'' \<noteq> CHR ''{''" by simp_all
  have s: "marshal (GString ''s'') = Some (quote ''s'')"
       "quote ''s'' = ''{}'' \<or> hd (quote ''s'') \<noteq> CHR ''{''" by (simp_all add: quote_def dq_def)
  have i: "marshal (GInt 7) = Some (itoa 7)"
       "itoa 7 = ''{}'' \<or> hd (itoa 7) \<noteq> CHR ''{''" by (simp_all add: hd_itoa)
  have t: "marshal (GBool True) = Some ''true''"
       "''true'' = ''{}'' \<or> hd ''true'' \<noteq> CHR ''{''" by simp_all
  have l: "marshal (GSlice [GBool True]) = Some ''[true]''"
       "''[true]'' = ''{}'' \<or> hd ''[true]'' \<noteq> CHR ''{''" by simp_all
  have fn: "flattened GNil = []" by (simp add: flattened_def)
  show ?thesis
    using writeDoc_without_fields [OF n, of "''x''" "''t''" "''INFO''" GNil "''m''"]
      writeDoc_without_fields [OF e, of "''x''" "''t''" "''INFO''" GNil "''m''"]
      writeDoc_without_fields [OF s, of "''x''" "''t''" "''INFO''" GNil "''m''"]
      writeDoc_without_fields [OF i, of "''x''" "''t''" "''INFO''" GNil "''m''"]
      writeDoc_without_fields [OF t, of "''x''" "''t''" "''INFO''" GNil "''m''"]
      writeDoc_without_fields [OF l, of "''x''" "''t''" "''INFO''" GNil "''m''"]
    by (simp add: fn)
qed

lemma flattened_nl: "list_all (\<lambda>x. CHR 0x0A \<notin> set x) (flattened v)"
proof (cases "fields_of v")
  case None
  then show ?thesis by (simp add: flattened_def)
next
  case (Some fs)
  show ?thesis
  proof (cases "list_all (\<lambda>f. marshal (snd f) \<noteq> None) (emitted fs)")
    case False
    then show ?thesis using Some by (simp add: flattened_def)
  next
    case True
    have "CHR 0x0A \<notin> set (render f)" if "f \<in> set (emitted fs)" for f
    proof -
      from that True obtain y where y: "marshal (snd f) = Some y"
        unfolding list_all_iff by blast
      then have "CHR 0x0A \<notin> set y" using marshal_nl(1) by blast
      then show ?thesis using y by (simp add: render_def quote_nl)
    qed
    then show ?thesis using Some True by (simp add: flattened_def list_all_iff)
  qed
qed

lemma member_nl: "CHR 0x0A \<notin> set k \<Longrightarrow> CHR 0x0A \<notin> set (member k s)"
  by (simp add: member_def dq_def quote_nl)

lemma record_of_lines:
  assumes "list_all (\<lambda>x. CHR 0x0A \<notin> set x) ms"
  shows "last (record_of time level ms message) = CHR 0x0A
       \<and> CHR 0x0A \<notin> set (butlast (record_of time level ms message))"
proof -
  let ?all = "[member ''time'' time, member ''lvl'' level] @ ms @ [member ''msg'' message]"
  have "list_all (\<lambda>x. CHR 0x0A \<notin> set x) ?all"
    using assms by (simp add: member_nl)
  then have j: "CHR 0x0A \<notin> set (join '','' ?all)"
    by (rule join_nl) simp
  have r: "record_of time level ms message = (''{'' @ join '','' ?all @ ''}'') @ [CHR 0x0A]"
    by (simp add: record_of_def)
  show ?thesis unfolding r using j by (simp del: append_assoc append_Cons)
qed

lemma encode_string_plain:
  "list_all (\<lambda>c. (of_char c :: nat) < 0x80 \<and> escape_byte c = [c]) k \<Longrightarrow> encode_string k = k"
  by (induction k) simp_all

lemma quote_plain:
  "list_all (\<lambda>c. (of_char c :: nat) < 0x80 \<and> escape_byte c = [c]) k \<Longrightarrow> quote k = [dq] @ k @ [dq]"
  by (simp add: quote_def encode_string_plain)

lemma emitted_strings:
  "emitted (map (\<lambda>(k, s). (Key k True, GString s)) kss) =
     map (\<lambda>(k, s). (k, GString s)) (filter (\<lambda>(k, s). s \<noteq> []) kss)"
  by (induction kss) auto

lemma flattened_strings:
  assumes "list_all (\<lambda>(k, s). list_all (\<lambda>c. (of_char c :: nat) < 0x80 \<and> escape_byte c = [c]) k) kss"
  shows "flattened (GStruct (map (\<lambda>(k, s). (Key k True, GString s)) kss)) =
     map (\<lambda>(k, s). member k s) (filter (\<lambda>(k, s). s \<noteq> []) kss)"
proof -
  have "render (k, GString s) = member k s" if "(k, s) \<in> set kss" for k s
    using that assms quote_plain [of k] by (auto simp: render_def member_def list_all_iff)
  then show ?thesis
    by (auto simp: flattened_def emitted_strings list_all_iff)
qed

lemma plain_keys:
  "list_all (\<lambda>c. (of_char c :: nat) < 0x80 \<and> escape_byte c = [c]) ''trans''"
  "list_all (\<lambda>c. (of_char c :: nat) < 0x80 \<and> escape_byte c = [c]) ''corr''"
  "list_all (\<lambda>c. (of_char c :: nat) < 0x80 \<and> escape_byte c = [c]) ''op''"
  "list_all (\<lambda>c. (of_char c :: nat) < 0x80 \<and> escape_byte c = [c]) ''svc''"
  "list_all (\<lambda>c. (of_char c :: nat) < 0x80 \<and> escape_byte c = [c]) ''comp''"
  "list_all (\<lambda>c. (of_char c :: nat) < 0x80 \<and> escape_byte c = [c]) ''user''"
  "list_all (\<lambda>c. (of_char c :: nat) < 0x80 \<and> escape_byte c = [c]) ''realm''"
  "list_all (\<lambda>c. (of_char c :: nat) < 0x80 \<and> escape_byte c = [c]) ''alarm''"
  "list_all (\<lambda>c. (of_char c :: nat) < 0x80 \<and> escape_byte c = [c]) ''method''"
  "list_all (\<lambda>c. (of_char c :: nat) < 0x80 \<and> escape_byte c = [c]) ''path''"
  "list_all (\<lambda>c. (of_char c :: nat) < 0x80 \<and> escape_byte c = [c]) ''remoteaddr''"
  "list_all (\<lambda>c. (of_char c :: nat) < 0x80 \<and> escape_byte c = [c]) ''status''"
  "list_all (\<lambda>c. (of_char c :: nat) < 0x80 \<and> escape_byte c = [c]) ''latency''"
  "list_all (\<lambda>c. (of_char c :: nat) < 0x80 \<and> escape_byte c = [c]) ''location''"
  "list_all (\<lambda>c. (of_char c :: nat) < 0x80 \<and> escape_byte c = [c]) ''error''"
  "list_all (\<lambda>c. (of_char c :: nat) < 0x80 \<and> escape_byte c = [c]) ''error_description''"
  by (simp_all add: escape_byte_def dq_def bslash_def)

lemma flattened_LogContext:
  "flattened (LogContext_value c) =
     map (\<lambda>(k, s). member k s) (filter (\<lambda>(k, s). s \<noteq> []) (LogContext_fields c))"
proof -
  have "LogContext_value c = GStruct (map (\<lambda>(k, s). (Key k True, GString s)) (LogContext_fields c))"
    by (simp add: LogContext_value_def LogContext_fields_def)
  moreover have "list_all (\<lambda>(k, s). list_all (\<lambda>c. (of_char c :: nat) < 0x80 \<and> escape_byte c = [c]) k) (LogContext_fields c)"
    by (simp add: LogContext_fields_def escape_byte_def dq_def bslash_def)
  ultimately show ?thesis by (simp only: flattened_strings)
qed

lemma flattened_ReqLogContext:
  "flattened (ReqLogContext_value c) =
     map (\<lambda>(k, s). member k s) (filter (\<lambda>(k, s). s \<noteq> []) (ReqLogContext_fields c))"
proof -
  have "ReqLogContext_value c = GStruct (map (\<lambda>(k, s). (Key k True, GString s)) (ReqLogContext_fields c))"
    by (simp add: ReqLogContext_value_def ReqLogContext_fields_def)
  moreover have "list_all (\<lambda>(k, s). list_all (\<lambda>c. (of_char c :: nat) < 0x80 \<and> escape_byte c = [c]) k) (ReqLogContext_fields c)"
    by (simp add: ReqLogContext_fields_def escape_byte_def dq_def bslash_def)
  ultimately show ?thesis by (simp only: flattened_strings)
qed

lemma flattened_RespLogContext:
  "flattened (RespLogContext_value c) =
     (if Status c = 0 then [] else [member_int ''status'' (Status c)]) @
     (if Latency c = 0 then [] else [member_int ''latency'' (Latency c)]) @
     (if Location c = [] then [] else [member ''location'' (Location c)])"
  by (simp add: flattened_def RespLogContext_value_def render_def member_def member_int_def
      quote_plain [OF plain_keys(12)] quote_plain [OF plain_keys(13)]
      quote_plain [OF plain_keys(14)])

lemma flattened_GPtr: "flattened (GPtr v) = flattened v"
  by (simp add: flattened_def)

lemma example_record:
  \<open>writeDoc [] ''...'' ''INFO''
      (LogContext_value (emptyLogContext\<lparr>TransactionID := ''t'', Operation := ''o''\<rparr>))
      (ReqLogContext_value \<lparr>Method = ''GET'', Path = [], RemoteAddr = []\<rparr>) ''hi''
    = ''{"time":"...","lvl":"INFO","trans":"t","op":"o","method":"GET","msg":"hi"}'' @ [CHR 0x0A]\<close>
  by (simp add: writeDoc_record flattened_LogContext flattened_ReqLogContext record_of_def
      LogContext_fields_def ReqLogContext_fields_def emptyLogContext_def member_def
      quote_def escape_byte_def dq_def bslash_def)

section \<open>The emission path\<close>

lemma LogLevelNames_nth: "LogLevelNames ! level_int lvl = level_name lvl"
  by (cases lvl) (simp_all add: LogLevelNames_def level_name_def)

lemma write_sink_Nil: "write_sink w p [] = w"
  by (simp add: write_sink_def)

lemma record_of_nonempty: "record_of time level ms message \<noteq> []"
  by (simp add: record_of_def)

lemma log_Some:
  "log Sprintf (Some p) lvl ctx message args w =
     Inr (if level_int lvl < level_int (logLevel (loggers w p)) then w
          else write_sink w p
                 (record_of (now w) (level_name lvl)
                    (flattened (resolve w (context (loggers w p))) @ flattened (resolve w ctx))
                    (if args = [] then message else Sprintf message args)))"
  by (simp add: log_def write_sink_def writeDoc_record LogLevelNames_nth Let_def)

lemma written_write_sink: "written w p (Inr (write_sink w p bytes)) = (bytes \<noteq> [])"
  by (simp add: written_def write_sink_def)

lemma written_log:
  "written w p (log Sprintf (Some p) lvl ctx message args w) =
     (level_int (logLevel (loggers w p)) \<le> level_int lvl)"
proof (cases "level_int lvl < level_int (logLevel (loggers w p))")
  case True
  then show ?thesis by (simp add: log_Some written_def)
next
  case False
  then show ?thesis by (simp add: log_Some written_write_sink record_of_nonempty)
qed

text \<open>
  Claim C1. A call at level \<open>lvl\<close> on a logger whose minimum level is \<open>logLevel\<close> writes to
  the sink if and only if \<open>logLevel \<le> lvl\<close> in the order DEBUG < INFO < WARN < ERROR < FATAL
  (the order of \<open>level_int\<close>), for \<^verbatim>\<open>log\<close> and for each of the ten methods \<^verbatim>\<open>Debug\<close> ...
  \<^verbatim>\<open>FatalC\<close>; below the minimum level the call returns the store unchanged, whatever the
  formatting function is (the message is not formatted and nothing is written).
\<close>

theorem log_written_iff:
  "written w p (log Sprintf (Some p) lvl ctx message args w) =
       (level_int (logLevel (loggers w p)) \<le> level_int lvl)
   \<and> (level_int lvl < level_int (logLevel (loggers w p)) \<longrightarrow>
        (\<forall>S. log S (Some p) lvl ctx message args w = Inr w))
   \<and> written w p (Debug Sprintf (Some p) message args w) =
       (level_int (logLevel (loggers w p)) \<le> level_int debugLevel)
   \<and> written w p (DebugC Sprintf (Some p) ctx message args w) =
       (level_int (logLevel (loggers w p)) \<le> level_int debugLevel)
   \<and> written w p (Info Sprintf (Some p) message args w) =
       (level_int (logLevel (loggers w p)) \<le> level_int infoLevel)
   \<and> written w p (InfoC Sprintf (Some p) ctx message args w) =
       (level_int (logLevel (loggers w p)) \<le> level_int infoLevel)
   \<and> written w p (Warn Sprintf (Some p) message args w) =
       (level_int (logLevel (loggers w p)) \<le> level_int warnLevel)
   \<and> written w p (WarnC Sprintf (Some p) ctx message args w) =
       (level_int (logLevel (loggers w p)) \<le> level_int warnLevel)
   \<and> written w p (Error Sprintf (Some p) message args w) =
       (level_int (logLevel (loggers w p)) \<le> level_int errorLevel)
   \<and> written w p (ErrorC Sprintf (Some p) ctx message args w) =
       (level_int (logLevel (loggers w p)) \<le> level_int errorLevel)
   \<and> written w p (Fatal Sprintf (Some p) message args w) =
       (level_int (logLevel (loggers w p)) \<le> level_int fatalLevel)
   \<and> written w p (FatalC Sprintf (Some p) ctx message args w) =
       (level_int (logLevel (loggers w p)) \<le> level_int fatalLevel)"
  unfolding Debug_def DebugC_def Info_def InfoC_def Warn_def WarnC_def Error_def ErrorC_def
    Fatal_def FatalC_def written_log
  by (simp add: log_Some)

theorem log_written_iff_witness:
  "level_int debugLevel < level_int (logLevel (loggers example_world 0))
   \<and> log (\<lambda>m a. m @ m) (Some 0) debugLevel (IVal GNil) ''50%'' [GInt 1] example_world
       = Inr example_world
   \<and> written example_world 0 (Warn example_Sprintf (Some 0) ''hi'' [] example_world)
   \<and> \<not> written example_world 0 (Debug example_Sprintf (Some 0) ''hi'' [] example_world)"
proof -
  have lt: "level_int debugLevel < level_int (logLevel (loggers example_world 0))"
    by (simp add: example_world_def)
  have le: "level_int (logLevel (loggers example_world 0)) \<le> level_int warnLevel"
    by (simp add: example_world_def)
  show ?thesis
    using lt le
      log_written_iff [of example_world 0 example_Sprintf debugLevel "IVal GNil" "''hi''" "[]"]
      log_written_iff [of example_world 0 "\<lambda>m a. m @ m" debugLevel "IVal GNil" "''50%''" "[GInt 1]"]
    by simp
qed

section \<open>Objects in a record\<close>

lemma objects_from_append:
  "objects_from st (xs @ ys) = objects_from st xs + objects_from (foldl lex_step st xs) ys"
  by (induction xs arbitrary: st) simp_all

lemma object_free_append: "object_free xs \<Longrightarrow> object_free ys \<Longrightarrow> object_free (xs @ ys)"
  by (simp add: object_free_def objects_from_append)

lemma outside_plain:
  "list_all (\<lambda>c. c \<noteq> dq \<and> c \<noteq> CHR ''{'') xs \<Longrightarrow> object_free xs"
proof (induction xs)
  case Nil
  then show ?case by (simp add: object_free_def)
next
  case (Cons c cs)
  then show ?case by (simp add: object_free_def)
qed

lemma inside_plain:
  "list_all (\<lambda>c. c \<noteq> dq \<and> c \<noteq> bslash) xs \<Longrightarrow>
     foldl lex_step Inside xs = Inside \<and> objects_from Inside xs = 0"
  by (induction xs) simp_all

lemma inside_append:
  assumes "foldl lex_step Inside xs = Inside \<and> objects_from Inside xs = 0"
    and "foldl lex_step Inside ys = Inside \<and> objects_from Inside ys = 0"
  shows "foldl lex_step Inside (xs @ ys) = Inside \<and> objects_from Inside (xs @ ys) = 0"
  using assms by (simp add: objects_from_append)

lemma escape_byte_cases:
  "(\<exists>x. escape_byte c = [bslash, x])
   \<or> (\<exists>a b. escape_byte c = [bslash, CHR ''u'', CHR ''0'', CHR ''0'', hexdigit a, hexdigit b])
   \<or> (escape_byte c = [c] \<and> c \<noteq> dq \<and> c \<noteq> bslash)"
  unfolding escape_byte_def by (simp split: if_splits) blast

lemma dq_bslash: "dq \<noteq> bslash" "CHR ''u'' \<noteq> dq" "CHR ''0'' \<noteq> dq" "CHR ''0'' \<noteq> bslash"
  by (simp_all add: dq_def bslash_def)

lemma inside_escape_byte:
  "foldl lex_step Inside (escape_byte c) = Inside \<and> objects_from Inside (escape_byte c) = 0"
proof -
  consider (two) x where "escape_byte c = [bslash, x]"
    | (six) a b where "escape_byte c = [bslash, CHR ''u'', CHR ''0'', CHR ''0'', hexdigit a, hexdigit b]"
    | (one) "escape_byte c = [c]" "c \<noteq> dq" "c \<noteq> bslash"
    using escape_byte_cases [of c] by blast
  then show ?thesis
  proof cases
    case two
    then show ?thesis by (simp add: dq_bslash dq_bslash [symmetric])
  next
    case six
    then show ?thesis using hexdigit_neq [of a] hexdigit_neq [of b]
      by (simp add: dq_bslash dq_bslash [symmetric])
  next
    case one
    then show ?thesis by simp
  qed
qed

lemma inside_escape_rune:
  assumes "list_all (\<lambda>c. (0x80::nat) \<le> of_char c) bytes"
  shows "foldl lex_step Inside (escape_rune bytes) = Inside
       \<and> objects_from Inside (escape_rune bytes) = 0"
proof -
  have "list_all (\<lambda>c. c \<noteq> dq \<and> c \<noteq> bslash) bytes"
    using assms high_byte unfolding list_all_iff by blast
  then have "foldl lex_step Inside bytes = Inside \<and> objects_from Inside bytes = 0"
    by (rule inside_plain)
  then show ?thesis by (simp add: escape_rune_def dq_def bslash_def)
qed

lemma inside_encode_string:
  "foldl lex_step Inside (encode_string s) = Inside \<and> objects_from Inside (encode_string s) = 0"
proof (induction s rule: encode_string.induct)
  case 1
  then show ?case by simp
next
  case (2 b bs)
  show ?case
  proof (cases "(of_char b :: nat) < 0x80")
    case True
    then have e: "encode_string (b # bs) = escape_byte b @ encode_string bs" by simp
    show ?thesis unfolding e using True 2
      by (intro inside_append inside_escape_byte) simp
  next
    case False
    then have h: "(0x80::nat) \<le> of_char b" by simp
    have e: "encode_string (b # bs) =
        escape_rune (take (rune_size (b # bs)) (b # bs))
          @ encode_string (drop (rune_size (b # bs) - 1) bs)"
      using False by simp
    show ?thesis unfolding e using False 2
      by (intro inside_append inside_escape_rune rune_bytes_high h) simp
  qed
qed

lemma object_free_quote: "object_free (quote s)"
  using inside_encode_string [of s]
  by (simp add: object_free_def quote_def objects_from_append dq_def)

lemma object_free_literals:
  "object_free ''null''" "object_free ''true''" "object_free ''false''" "object_free '':''"
  "object_free '',''" "object_free ''}''" "object_free [CHR 0x0A]" "object_free ''[''"
  "object_free '']''"
  by (simp_all add: object_free_def dq_def)

lemma object_free_itoa: "object_free (itoa i)"
proof -
  have "list_all (\<lambda>c. c \<noteq> dq \<and> c \<noteq> CHR ''{'') (itoa i)"
    using itoa_chars [of i] unfolding list_all_iff by blast
  then show ?thesis by (rule outside_plain)
qed

lemma object_free_join: "list_all object_free ms \<Longrightarrow> object_free (join '','' ms)"
proof (induction "'',''" ms rule: join.induct)
  case 1
  then show ?case by (simp add: object_free_def)
next
  case (2 x)
  then show ?case by simp
next
  case (3 x y ys)
  then have "object_free x" "object_free (join '','' (y # ys))" by simp_all
  then show ?case
    unfolding join.simps by (intro object_free_append object_free_literals)
qed

lemma object_free_marshal:
  "(\<forall>y. struct_free v \<longrightarrow> marshal v = Some y \<longrightarrow> object_free y)"
  "(\<forall>ys. list_all struct_free vs \<longrightarrow> marshal_elems vs = Some ys \<longrightarrow> list_all object_free ys)"
  "(marshal_fields fs = marshal_fields fs)"
proof (induction v and vs and fs rule: marshal_marshal_elems_marshal_fields.induct)
  case (6 xs)
  show ?case
  proof (intro allI impI)
    fix y
    assume s: "struct_free (GSlice xs)" and m: "marshal (GSlice xs) = Some y"
    then obtain ys where ys: "marshal_elems xs = Some ys" and y: "y = ''['' @ join '','' ys @ '']''"
      by (auto split: option.splits)
    have "list_all object_free ys" using 6 s ys by simp
    then have "object_free (join '','' ys)" by (rule object_free_join)
    then show "object_free y"
      unfolding y by (intro object_free_append object_free_literals)
  qed
next
  case (11 v vs)
  then show ?case by (auto split: option.splits)
qed (simp_all add: object_free_literals object_free_itoa object_free_quote)

lemma object_free_value: "struct_free v \<Longrightarrow> marshal v = Some y \<Longrightarrow> object_free y"
  using object_free_marshal(1) by blast

lemma object_free_render:
  assumes "struct_free (snd f)" and "marshal (snd f) \<noteq> None"
  shows "object_free (render f)"
proof -
  obtain y where y: "marshal (snd f) = Some y" using assms(2) by blast
  then have "object_free y" using assms(1) by (rule object_free_value [rotated])
  then show ?thesis
    unfolding render_def y option.sel
    by (intro object_free_append object_free_quote object_free_literals)
qed

lemma emitted_struct_free:
  "list_all (\<lambda>f. struct_free (snd f)) fs \<Longrightarrow> list_all (\<lambda>f. struct_free (snd f)) (emitted fs)"
  by (induction fs rule: emitted.induct) simp_all

lemma object_free_flattened:
  assumes "flat_context c"
  shows "list_all object_free (flattened c)"
proof (cases "fields_of c")
  case None
  then show ?thesis by (simp add: flattened_def)
next
  case (Some fs)
  show ?thesis
  proof (cases "list_all (\<lambda>f. marshal (snd f) \<noteq> None) (emitted fs)")
    case False
    then show ?thesis using Some by (simp add: flattened_def)
  next
    case True
    have "object_free (render f)" if "f \<in> set (emitted fs)" for f
    proof -
      have "struct_free (snd f)" using that assms Some by (simp add: flat_context_def list_all_iff)
      moreover have "marshal (snd f) \<noteq> None" using that True by (simp add: list_all_iff)
      ultimately show ?thesis by (rule object_free_render)
    qed
    then show ?thesis using Some True by (simp add: flattened_def list_all_iff)
  qed
qed

lemma object_free_member:
  assumes "list_all (\<lambda>c. c \<noteq> dq \<and> c \<noteq> bslash) k"
  shows "object_free (member k s)"
proof -
  have "foldl lex_step Inside k = Inside \<and> objects_from Inside k = 0"
    using assms by (rule inside_plain)
  then have a: "object_free ([dq] @ k @ [dq])"
    by (simp add: object_free_def objects_from_append dq_def)
  have b: "object_free ('':'' @ quote s)"
    by (intro object_free_append object_free_quote object_free_literals)
  show ?thesis using object_free_append [OF a b] by (simp add: member_def)
qed

lemma objects_record_of:
  assumes "list_all object_free ms"
  shows "objects (record_of time level ms message) = 1"
proof -
  let ?all = "[member ''time'' time, member ''lvl'' level] @ ms @ [member ''msg'' message]"
  have "list_all object_free ?all"
    using assms by (simp add: object_free_member dq_def bslash_def)
  then have "object_free (join '','' ?all)" by (rule object_free_join)
  then have "object_free (join '','' ?all @ ''}'' @ [CHR 0x0A])"
    by (intro object_free_append object_free_literals)
  then have "objects_from Outside (join '','' ?all @ ''}'' @ [CHR 0x0A]) = 0"
    by (simp add: object_free_def)
  then show ?thesis by (simp add: objects_def record_of_def dq_def)
qed

lemma flat_context_package:
  "flat_context (LogContext_value lc)" "flat_context (GPtr (LogContext_value lc))"
  "flat_context (ReqLogContext_value rq)" "flat_context (RespLogContext_value rs)"
  by (simp_all add: flat_context_def LogContext_value_def ReqLogContext_value_def
      RespLogContext_value_def emitted_struct_free)

lemma objects_flat:
  assumes "flat_context c1" and "flat_context c2"
  shows "objects (writeDoc [] time level c1 c2 message) = 1"
  unfolding writeDoc_record using assms
  by (intro objects_record_of) (simp add: object_free_flattened)

text \<open>
  Claim C2, as amended. For every timestamp, level name, message and pair of context values,
  \<^verbatim>\<open>writeDoc\<close> produces one JSON object on one line, closed by a newline (the only one):
  \<^verbatim>\<open>time\<close>, \<^verbatim>\<open>lvl\<close>, the flattened fields of the bound context in declaration order, those
  of the context of the call in declaration order, then \<^verbatim>\<open>msg\<close>; an empty \<^verbatim>\<open>omitempty\<close> field
  is left out. When no encoded field of either context holds a struct (the fields are
  strings, numbers, booleans, nil, or pointers to or slices of such values), the record
  holds one object only, itself: no nested object. The context types of the package are of
  that kind, and their members are exactly their non-empty fields.
  The example of the specification is the last conjunct.
\<close>

theorem writeDoc_key_order:
  \<open>writeDoc [] time level c1 c2 message =
       record_of time level (flattened c1 @ flattened c2) message
   \<and> last (writeDoc [] time level c1 c2 message) = CHR 0x0A
   \<and> CHR 0x0A \<notin> set (butlast (writeDoc [] time level c1 c2 message))
   \<and> (flat_context c1 \<and> flat_context c2 \<longrightarrow>
        objects (writeDoc [] time level c1 c2 message) = 1)
   \<and> flat_context (LogContext_value lc) \<and> flat_context (GPtr (LogContext_value lc))
   \<and> flat_context (ReqLogContext_value rq) \<and> flat_context (RespLogContext_value rs)
   \<and> flattened (LogContext_value lc) =
       map (\<lambda>(k, s). member k s) (filter (\<lambda>(k, s). s \<noteq> []) (LogContext_fields lc))
   \<and> flattened (GPtr (LogContext_value lc)) =
       map (\<lambda>(k, s). member k s) (filter (\<lambda>(k, s). s \<noteq> []) (LogContext_fields lc))
   \<and> flattened (ReqLogContext_value rq) =
       map (\<lambda>(k, s). member k s) (filter (\<lambda>(k, s). s \<noteq> []) (ReqLogContext_fields rq))
   \<and> flattened (RespLogContext_value rs) =
       (if Status rs = 0 then [] else [member_int ''status'' (Status rs)]) @
       (if Latency rs = 0 then [] else [member_int ''latency'' (Latency rs)]) @
       (if Location rs = [] then [] else [member ''location'' (Location rs)])
   \<and> writeDoc [] ''...'' ''INFO''
        (LogContext_value (emptyLogContext\<lparr>TransactionID := ''t'', Operation := ''o''\<rparr>))
        (ReqLogContext_value \<lparr>Method = ''GET'', Path = [], RemoteAddr = []\<rparr>) ''hi''
       = ''{"time":"...","lvl":"INFO","trans":"t","op":"o","method":"GET","msg":"hi"}''
           @ [CHR 0x0A]\<close>
proof -
  have "list_all (\<lambda>x. CHR 0x0A \<notin> set x) (flattened c1 @ flattened c2)"
    by (simp add: flattened_nl)
  then have "last (record_of time level (flattened c1 @ flattened c2) message) = CHR 0x0A
       \<and> CHR 0x0A \<notin> set (butlast (record_of time level (flattened c1 @ flattened c2) message))"
    by (rule record_of_lines)
  then have l: "last (writeDoc [] time level c1 c2 message) = CHR 0x0A"
    and n: "CHR 0x0A \<notin> set (butlast (writeDoc [] time level c1 c2 message))"
    by (simp_all add: writeDoc_record)
  have p: "flattened (GPtr (LogContext_value lc)) =
       map (\<lambda>(k, s). member k s) (filter (\<lambda>(k, s). s \<noteq> []) (LogContext_fields lc))"
    by (simp only: flattened_GPtr flattened_LogContext)
  have o: "flat_context c1 \<and> flat_context c2 \<longrightarrow>
        objects (writeDoc [] time level c1 c2 message) = 1"
    using objects_flat by blast
  show ?thesis
    by (intro conjI)
      (rule writeDoc_record l n o flat_context_package flattened_LogContext p
        flattened_ReqLogContext flattened_RespLogContext example_record)+
qed

theorem writeDoc_key_order_witness:
  \<open>flat_context (LogContext_value (emptyLogContext\<lparr>TransactionID := ''t'', Operation := ''o''\<rparr>))
   \<and> flat_context (ReqLogContext_value \<lparr>Method = ''GET'', Path = [], RemoteAddr = []\<rparr>)
   \<and> objects (''{"time":"...","lvl":"INFO","trans":"t","op":"o","method":"GET","msg":"hi"}''
        @ [CHR 0x0A]) = 1\<close>
proof -
  note T = writeDoc_key_order [of "''...''" "''INFO''"
      "LogContext_value (emptyLogContext\<lparr>TransactionID := ''t'', Operation := ''o''\<rparr>)"
      "ReqLogContext_value \<lparr>Method = ''GET'', Path = [], RemoteAddr = []\<rparr>" "''hi''"
      "emptyLogContext\<lparr>TransactionID := ''t'', Operation := ''o''\<rparr>"
      "\<lparr>Method = ''GET'', Path = [], RemoteAddr = []\<rparr>"]
  from T have f:
    "flat_context (LogContext_value (emptyLogContext\<lparr>TransactionID := ''t'', Operation := ''o''\<rparr>))"
    "flat_context (ReqLogContext_value \<lparr>Method = ''GET'', Path = [], RemoteAddr = []\<rparr>)"
    by blast+
  from T f have o: "objects (writeDoc [] ''...'' ''INFO''
        (LogContext_value (emptyLogContext\<lparr>TransactionID := ''t'', Operation := ''o''\<rparr>))
        (ReqLogContext_value \<lparr>Method = ''GET'', Path = [], RemoteAddr = []\<rparr>) ''hi'') = 1"
    by blast
  from T have e: \<open>writeDoc [] ''...'' ''INFO''
        (LogContext_value (emptyLogContext\<lparr>TransactionID := ''t'', Operation := ''o''\<rparr>))
        (ReqLogContext_value \<lparr>Method = ''GET'', Path = [], RemoteAddr = []\<rparr>) ''hi''
       = ''{"time":"...","lvl":"INFO","trans":"t","op":"o","method":"GET","msg":"hi"}''
           @ [CHR 0x0A]\<close>
    by blast
  show ?thesis using f o unfolding e by blast
qed

text \<open>
  Claim C2 as it was stated fails for a context one of whose fields is itself a struct: the
  encoding of that field is an object, and it is spliced into the record with the rest, so
  that the record holds two objects.
\<close>

theorem writeDoc_nested_object_counterexample:
  \<open>writeDoc [] ''...'' ''INFO''
      (GStruct [(Key ''a'' False, GStruct [(Key ''b'' False, GInt 1)])]) GNil ''hi''
    = ''{"time":"...","lvl":"INFO","a":{"b":1},"msg":"hi"}'' @ [CHR 0x0A]
   \<and> objects (writeDoc [] ''...'' ''INFO''
        (GStruct [(Key ''a'' False, GStruct [(Key ''b'' False, GInt 1)])]) GNil ''hi'') = 2\<close>
proof -
  have "digits (Suc 0) = ''1''"
    by (subst digits.simps) (simp add: digit_char_def)
  then have i: "itoa 1 = ''1''"
    by (simp add: itoa_def)
  have e: \<open>writeDoc [] ''...'' ''INFO''
      (GStruct [(Key ''a'' False, GStruct [(Key ''b'' False, GInt 1)])]) GNil ''hi''
    = ''{"time":"...","lvl":"INFO","a":{"b":1},"msg":"hi"}'' @ [CHR 0x0A]\<close>
    by (simp add: writeDoc_def writeField_def writeObject_def i quote_def escape_byte_def
        dq_def bslash_def)
  show ?thesis unfolding e by (simp add: objects_def dq_def bslash_def)
qed

lemma record_of_msg:
  "record_of time level ms message =
     ''{'' @ join '','' ([member ''time'' time, member ''lvl'' level] @ ms) @ '','' @
       [dq] @ ''msg'' @ [dq] @ '':'' @ quote message @ ''}'' @ [CHR 0x0A]"
proof -
  have "join '','' (([member ''time'' time, member ''lvl'' level] @ ms) @ [member ''msg'' message])
      = join '','' ([member ''time'' time, member ''lvl'' level] @ ms) @ '','' @ member ''msg'' message"
    by (subst join_append) simp_all
  then show ?thesis by (simp add: record_of_def member_def)
qed

lemma log_emission:
  "log Sprintf (Some p) lvl ctx message args w =
     Inr (write_sink w p (emission Sprintf w p lvl ctx message args))"
  by (simp add: log_Some emission_def write_sink_Nil)

lemma resolve_write_sink: "resolve (write_sink w p bytes) i = resolve w i"
  by (cases i) (simp_all add: resolve_def write_sink_def)

lemma write_sink_fields:
  "loggers (write_sink w p bytes) = loggers w"
  "contexts (write_sink w p bytes) = contexts w"
  "now (write_sink w p bytes) = now w"
  by (simp_all add: write_sink_def)

lemma emission_write_sink:
  "emission Sprintf (write_sink w p bytes) q lvl ctx message args =
     emission Sprintf w q lvl ctx message args"
  by (simp add: emission_def resolve_write_sink write_sink_fields)

text \<open>
  Claim C9. When a call that passes the level filter has no format arguments, the \<^verbatim>\<open>msg\<close>
  member of the record is the message as it is (a \<^verbatim>\<open>%\<close> in it is not interpreted); when it
  has arguments, the \<^verbatim>\<open>msg\<close> member is the result of \<^verbatim>\<open>fmt.Sprintf\<close> on the message and the
  arguments. The last conjunct spells out where the message stands in a record.
\<close>

theorem log_message_verbatim:
  "level_int (logLevel (loggers w p)) \<le> level_int lvl \<Longrightarrow>
     log Sprintf (Some p) lvl ctx message [] w =
       Inr (write_sink w p (record_of (now w) (level_name lvl)
              (flattened (resolve w (context (loggers w p))) @ flattened (resolve w ctx)) message))
   \<and> (args \<noteq> [] \<longrightarrow>
        log Sprintf (Some p) lvl ctx message args w =
          Inr (write_sink w p (record_of (now w) (level_name lvl)
                 (flattened (resolve w (context (loggers w p))) @ flattened (resolve w ctx))
                 (Sprintf message args))))
   \<and> record_of time level ms msg =
        ''{'' @ join '','' ([member ''time'' time, member ''lvl'' level] @ ms) @ '','' @
          [dq] @ ''msg'' @ [dq] @ '':'' @ quote msg @ ''}'' @ [CHR 0x0A]"
  using record_of_msg [of time level ms msg] by (simp add: log_Some)

theorem log_message_verbatim_witness:
  \<open>level_int (logLevel (loggers example_world 0)) \<le> level_int warnLevel
   \<and> log (\<lambda>m a. ''formatted'') (Some 0) warnLevel (IVal GNil) ''100%d'' [] example_world =
       Inr (write_sink example_world 0
         (''{"time":"2017-11-13T08:01:51.335Z","lvl":"WARN","msg":"100%d"}'' @ [CHR 0x0A]))
   \<and> log (\<lambda>m a. ''formatted'') (Some 0) warnLevel (IVal GNil) ''100%d'' [GInt 1] example_world =
       Inr (write_sink example_world 0
         (''{"time":"2017-11-13T08:01:51.335Z","lvl":"WARN","msg":"formatted"}'' @ [CHR 0x0A]))\<close>
proof -
  have le: "level_int (logLevel (loggers example_world 0)) \<le> level_int warnLevel"
    by (simp add: example_world_def)
  have c: "context (loggers example_world 0) = IVal GNil" "now example_world = ''2017-11-13T08:01:51.335Z''"
    by (simp_all add: example_world_def)
  have f: "flattened GNil = []" by (simp add: flattened_def)
  show ?thesis
    using le log_message_verbatim [OF le, of "\<lambda>m a. ''formatted''" "IVal GNil" "''100%d''" "[GInt 1]"]
    by (simp add: c f resolve_def record_of_def level_name_def member_def quote_def
        escape_byte_def dq_def bslash_def)
qed

text \<open>
  Claim C8. A context that \<^verbatim>\<open>json.Marshal\<close> rejects does not make the call fail: \<^verbatim>\<open>log\<close>
  returns normally, the record is the one without that context (the context is dropped,
  for the context of the call as for the bound context), nothing but the sink changes, and
  a later call on the same logger emits what it would have emitted anyway. The message is
  a string, which always has an encoding.
\<close>

theorem log_unserializable:
  "(marshal (resolve w ctx) = None \<longrightarrow>
      log Sprintf (Some p) lvl ctx message args w =
        Inr (write_sink w p (emission Sprintf w p lvl (IVal GNil) message args))
    \<and> log Sprintf (Some p) lvl2 ctx2 message2 args2
          (write_sink w p (emission Sprintf w p lvl (IVal GNil) message args)) =
        Inr (write_sink (write_sink w p (emission Sprintf w p lvl (IVal GNil) message args)) p
               (emission Sprintf w p lvl2 ctx2 message2 args2)))
   \<and> (marshal (resolve w (context (loggers w p))) = None \<longrightarrow>
      log Sprintf (Some p) lvl ctx message args w =
        Inr (write_sink w p
          (if level_int lvl < level_int (logLevel (loggers w p)) then []
           else record_of (now w) (level_name lvl) (flattened (resolve w ctx))
                  (if args = [] then message else Sprintf message args))))
   \<and> marshal (GString message) = Some (quote message)"
proof -
  have a: "emission Sprintf w p lvl ctx message args = emission Sprintf w p lvl (IVal GNil) message args"
    if "marshal (resolve w ctx) = None"
    using flattened_unserializable [OF that] by (simp add: emission_def resolve_def flattened_def)
  have b: "emission Sprintf w p lvl ctx message args =
      (if level_int lvl < level_int (logLevel (loggers w p)) then []
           else record_of (now w) (level_name lvl) (flattened (resolve w ctx))
                  (if args = [] then message else Sprintf message args))"
    if "marshal (resolve w (context (loggers w p))) = None"
    using flattened_unserializable [OF that] by (simp add: emission_def)
  show ?thesis
    using a b by (simp add: log_emission emission_write_sink)
qed

theorem log_unserializable_witness:
  \<open>marshal (resolve example_world
       (IVal (GStruct [(Key ''a'' False, GString ''x''), (Key ''b'' False, GChan)]))) = None
   \<and> log example_Sprintf (Some 0) errorLevel
        (IVal (GStruct [(Key ''a'' False, GString ''x''), (Key ''b'' False, GChan)])) ''failed'' []
        example_world =
       Inr (write_sink example_world 0
         (''{"time":"2017-11-13T08:01:51.335Z","lvl":"ERROR","msg":"failed"}'' @ [CHR 0x0A]))
   \<and> marshal (resolve example_world_chan (context (loggers example_world_chan 0))) = None
   \<and> log example_Sprintf (Some 0) errorLevel
        (IVal (ReqLogContext_value \<lparr>Method = ''GET'', Path = [], RemoteAddr = []\<rparr>)) ''failed'' []
        example_world_chan =
       Inr (write_sink example_world_chan 0
         (''{"time":"2017-11-13T08:01:51.335Z","lvl":"ERROR","method":"GET","msg":"failed"}''
            @ [CHR 0x0A]))\<close>
proof -
  have u: "marshal (resolve example_world
      (IVal (GStruct [(Key ''a'' False, GString ''x''), (Key ''b'' False, GChan)]))) = None"
    by (simp add: resolve_def)
  have u': "marshal (resolve example_world_chan (context (loggers example_world_chan 0))) = None"
    by (simp add: resolve_def example_world_chan_def)
  have c: "context (loggers example_world 0) = IVal GNil"
    "now example_world = ''2017-11-13T08:01:51.335Z''"
    "logLevel (loggers example_world 0) = infoLevel"
    "now example_world_chan = ''2017-11-13T08:01:51.335Z''"
    "logLevel (loggers example_world_chan 0) = infoLevel"
    by (simp_all add: example_world_def example_world_chan_def)
  have f: "flattened GNil = []" by (simp add: flattened_def)
  have g: "flattened (ReqLogContext_value \<lparr>Method = ''GET'', Path = [], RemoteAddr = []\<rparr>)
      = [member ''method'' ''GET'']"
    by (simp add: flattened_ReqLogContext ReqLogContext_fields_def)
  show ?thesis
    using u u'
      log_unserializable [of example_world
        "IVal (GStruct [(Key ''a'' False, GString ''x''), (Key ''b'' False, GChan)])"
        example_Sprintf 0 errorLevel "''failed''" "[]"]
      log_unserializable [of example_world_chan
        "IVal (ReqLogContext_value \<lparr>Method = ''GET'', Path = [], RemoteAddr = []\<rparr>)"
        example_Sprintf 0 errorLevel "''failed''" "[]"]
    by (simp add: c f g emission_def resolve_def record_of_def level_name_def member_def quote_def
        escape_byte_def dq_def bslash_def)
qed

section \<open>Contexts, errors and middlewares\<close>

lemma mutate_other: "a \<noteq> c \<Longrightarrow> contexts (mutate a m w) c = contexts w c"
  by (cases m) (simp_all add: SetCorrelator_def SetTransactionID_def)

lemma mutate_all_other: "a \<noteq> c \<Longrightarrow> contexts (mutate_all a ms w) c = contexts w c"
  by (induction ms arbitrary: w) (simp_all add: mutate_other)

lemma mutate_next_context: "next_context (mutate a m w) = next_context w"
  by (cases m) (simp_all add: SetCorrelator_def SetTransactionID_def)

text \<open>
  Claim C6. \<^verbatim>\<open>Clone\<close> returns a new object that holds a copy of the fields of the source
  \<open>c\<close>. Whatever sequence of mutations is then applied to the clone (the setters
  \<^verbatim>\<open>SetCorrelator\<close> and \<^verbatim>\<open>SetTransactionID\<close>, or assignments to fields), every field of the
  source is what it was; in particular \<^verbatim>\<open>GetCorrelator\<close> on the source after
  \<^verbatim>\<open>SetCorrelator\<close> on the clone returns the prior value. Mutating the source leaves the
  clone alone as well.
\<close>

theorem Clone_independent:
  assumes "c < next_context w"
  shows "fst (Clone c w) \<noteq> c
       \<and> contexts (snd (Clone c w)) (fst (Clone c w)) = contexts w c
       \<and> contexts (snd (Clone c w)) c = contexts w c
       \<and> contexts (mutate_all (fst (Clone c w)) ms (snd (Clone c w))) c = contexts w c
       \<and> GetCorrelator c (SetCorrelator (fst (Clone c w)) x (snd (Clone c w))) = GetCorrelator c w
       \<and> GetTransactionID c (SetTransactionID (fst (Clone c w)) x (snd (Clone c w)))
            = GetTransactionID c w
       \<and> contexts (mutate_all c ms (snd (Clone c w))) (fst (Clone c w)) = contexts w c"
proof -
  have ne: "fst (Clone c w) \<noteq> c" using assms by (simp add: Clone_def)
  have s: "contexts (snd (Clone c w)) c = contexts w c" using assms by (simp add: Clone_def)
  have k: "contexts (snd (Clone c w)) (fst (Clone c w)) = contexts w c" by (simp add: Clone_def)
  have m: "contexts (mutate_all (fst (Clone c w)) ms (snd (Clone c w))) c = contexts w c"
    using mutate_all_other [OF ne] s by simp
  have m': "contexts (mutate_all c ms (snd (Clone c w))) (fst (Clone c w)) = contexts w c"
    using mutate_all_other [OF ne [symmetric]] k by simp
  have g: "GetCorrelator c (SetCorrelator (fst (Clone c w)) x (snd (Clone c w))) = GetCorrelator c w"
    using ne s by (simp add: GetCorrelator_def SetCorrelator_def)
  have t: "GetTransactionID c (SetTransactionID (fst (Clone c w)) x (snd (Clone c w)))
            = GetTransactionID c w"
    using ne s by (simp add: GetTransactionID_def SetTransactionID_def)
  show ?thesis using ne s k m m' g t by simp
qed

theorem Clone_independent_witness:
  "(0::nat) < next_context example_world
   \<and> GetCorrelator 0 (SetCorrelator (fst (Clone 0 example_world)) ''x'' (snd (Clone 0 example_world)))
       = GetCorrelator 0 example_world
   \<and> contexts (mutate_all (fst (Clone 0 example_world))
        [CallSetCorrelator ''x'', CallSetTransactionID ''y'', Assign (\<lambda>c. c\<lparr>User := ''u''\<rparr>)]
        (snd (Clone 0 example_world))) 0 = contexts example_world 0"
proof -
  have h: "(0::nat) < next_context example_world" by (simp add: example_world_def)
  show ?thesis
    using h Clone_independent [OF h, of "[CallSetCorrelator ''x'', CallSetTransactionID ''y'', Assign (\<lambda>c. c\<lparr>User := ''u''\<rparr>)]" "''x''"]
    by blast
qed

lemma rw_Write: "rw_Body (Write d rw) = rw_Body rw @ d" "rw_Codes (Write d rw) = rw_Codes rw"
  "rw_Header (Write d rw) = rw_Header rw"
  by (induction rw) simp_all

lemma rw_WriteHeader: "rw_Body (WriteHeader n rw) = rw_Body rw"
  "rw_Codes (WriteHeader n rw) = rw_Codes rw @ [n]" "rw_Header (WriteHeader n rw) = rw_Header rw"
  by (induction rw) simp_all

lemma rw_Header_Set: "rw_Body (rw_Header_Set k v rw) = rw_Body rw"
  "rw_Codes (rw_Header_Set k v rw) = rw_Codes rw"
  "rw_Header (rw_Header_Set k v rw) = Header_Set (rw_Header rw) k v"
  by (induction rw) simp_all

lemma marshal_Error: "marshal (Error_value e) = Some (wire_body (err_Code e) (err_Description e))"
  by (simp add: Error_value_def wire_body_def member_def
      quote_plain [OF plain_keys(15)] quote_plain [OF plain_keys(16)])


text \<open>
  Claim C5. The body that \<^verbatim>\<open>Response\<close> writes and that \<^verbatim>\<open>GetResponse\<close> returns is made of
  the code, under the key \<^verbatim>\<open>error\<close>, and of the description, under the key
  \<^verbatim>\<open>error_description\<close>, when the description is not empty; no other field of the error
  takes part in it. \<^verbatim>\<open>GetResponse\<close> stores the status of the error as the status code.
  \<^verbatim>\<open>Response\<close> passes the status of the error to \<^verbatim>\<open>WriteHeader\<close> and then writes the body;
  this is stated for a status that \<^verbatim>\<open>WriteHeader\<close> accepts (100 to 999), since with any other
  status the call of \<^verbatim>\<open>WriteHeader\<close> panics and nothing is serialized.
\<close>

theorem Response_wire_body:
  \<open>(checkWriteHeaderCode (err_Status e) \<longrightarrow>
       Response e rw =
         Write (wire_body (err_Code e) (err_Description e))
           (WriteHeader (err_Status e) (rw_Header_Set ''Content-Type'' ''application/json'' rw))
     \<and> rw_Body (Response e rw) = rw_Body rw @ wire_body (err_Code e) (err_Description e)
     \<and> rw_Codes (Response e rw) = rw_Codes rw @ [err_Status e]
     \<and> rw_Header (Response e rw) ''Content-Type'' = [''application/json''])
   \<and> resp_Body (GetResponse e) = wire_body (err_Code e) (err_Description e)
   \<and> resp_StatusCode (GetResponse e) = err_Status e
   \<and> wire_body code description =
       ''{"error":'' @ quote code @
         (if description = [] then [] else '',"error_description":'' @ quote description) @ ''}''\<close>
proof -
  have r: "Response e rw =
       Write (wire_body (err_Code e) (err_Description e))
         (WriteHeader (err_Status e) (rw_Header_Set ''Content-Type'' ''application/json'' rw))"
    by (simp add: Response_def marshal_Error)
  have g: "resp_Body (GetResponse e) = wire_body (err_Code e) (err_Description e)"
    "resp_StatusCode (GetResponse e) = err_Status e"
    by (simp_all add: GetResponse_def marshal_Error)
  have w: \<open>wire_body code description =
       ''{"error":'' @ quote code @
         (if description = [] then [] else '',"error_description":'' @ quote description) @ ''}''\<close>
    by (simp add: wire_body_def member_def dq_def)
  show ?thesis
    unfolding r using g w
    by (simp add: rw_Write rw_WriteHeader rw_Header_Set Header_Set_def)
qed

theorem Response_wire_body_witness:
  \<open>checkWriteHeaderCode 400 \<and> checkWriteHeaderCode 500
   \<and> rw_Body (Response \<lparr>err_Message = ''log message'', err_Status = 400, err_Alarm = ''ALARM_01'',
        err_Code = ''invalid_request'', err_Description = ''invalid request''\<rparr> example_writer)
     = ''{"error":"invalid_request","error_description":"invalid request"}''
   \<and> rw_Codes (Response \<lparr>err_Message = ''log message'', err_Status = 400, err_Alarm = ''ALARM_01'',
        err_Code = ''invalid_request'', err_Description = ''invalid request''\<rparr> example_writer)
     = [400]
   \<and> rw_Body (Response (NewServerError ''server error'') example_writer) = ''{"error":"server_error"}''
   \<and> rw_Codes (Response (NewServerError ''server error'') example_writer) = [500]\<close>
proof -
  have v: "checkWriteHeaderCode 400" "checkWriteHeaderCode 500"
    by (simp_all add: checkWriteHeaderCode_def)
  show ?thesis
    using v
      Response_wire_body [of "\<lparr>err_Message = ''log message'', err_Status = 400,
        err_Alarm = ''ALARM_01'', err_Code = ''invalid_request'',
        err_Description = ''invalid request''\<rparr>" example_writer "''invalid_request''" "''invalid request''"]
      Response_wire_body [of "NewServerError ''server error''" example_writer "''server_error''" "[]"]
    by (simp add: example_writer_def NewServerError_def quote_def escape_byte_def dq_def bslash_def)
qed

lemma newLoggerBlock_returns:
  "\<exists>r' w'. newLoggerBlock r w = Inr (r', w') \<and> sinks w' = sinks w"
  by (simp add: newLoggerBlock_def NewLogger_def newLogContext_def InitContext_def Clone_def
      newTransactionID_def SetTransactionID_def SetCorrelator_def SetLogContext_def Let_def
      split: prod.splits)

lemma WithLog_nil_logger:
  assumes "getLogger r = Inr None"
  shows "\<exists>w'. WithLog_over getLogger Sprintf Dump next rw r w = Inl (NilDereference, w')
           \<and> sinks w' = sinks w"
proof -
  obtain r' w' where b: "newLoggerBlock r w = Inr (r', w')" and s: "sinks w' = sinks w"
    using newLoggerBlock_returns by blast
  have "WithLog_over getLogger Sprintf Dump next rw r w = Inl (NilDereference, w')"
    using assms b by (simp add: WithLog_over_def GetLogContext_def)
  then show ?thesis using s by blast
qed

text \<open>
  Claim C7 does not hold of the code. For a request whose context holds no logger,
  \<^verbatim>\<open>GetLogger\<close> returns nil, the block under \<^verbatim>\<open>if logger == nil\<close> builds a logger in a variable of
  its own, and \<^verbatim>\<open>logger.GetLogContext()\<close> then dereferences the nil pointer: the call panics
  before anything is written and before the handler runs. With the \<^verbatim>\<open>GetLogger\<close> of the
  other copy of the file, the type assertion panics at once.
\<close>

theorem WithLog_without_logger_panics:
  assumes "req_Context r = NoValue"
  shows "(\<exists>w'. WithLog Sprintf Dump next rw r w = Inl (NilDereference, w') \<and> sinks w' = sinks w)
       \<and> WithLog_over GetLogger_assert Sprintf Dump next rw r w = Inl (TypeAssertion, w)"
proof -
  have "GetLogger r = Inr None" using assms by (simp add: GetLogger_def)
  then have "\<exists>w'. WithLog Sprintf Dump next rw r w = Inl (NilDereference, w') \<and> sinks w' = sinks w"
    unfolding WithLog_def by (rule WithLog_nil_logger)
  moreover have "WithLog_over GetLogger_assert Sprintf Dump next rw r w = Inl (TypeAssertion, w)"
    using assms by (simp add: WithLog_over_def GetLogger_assert_def)
  ultimately show ?thesis by blast
qed

theorem WithLog_without_logger_panics_witness:
  "req_Context example_request = NoValue
   \<and> (\<exists>w'. WithLog example_Sprintf (\<lambda>r. None) (\<lambda>rw r w. Inr (WriteHeader 200 rw, w))
              example_writer example_request example_world = Inl (NilDereference, w')
           \<and> sinks w' = sinks example_world)"
proof -
  have h: "req_Context example_request = NoValue" by (simp add: example_request_def)
  show ?thesis
    using h WithLog_without_logger_panics [OF h, of example_Sprintf "\<lambda>r. None"
        "\<lambda>rw r w. Inr (WriteHeader 200 rw, w)" example_writer example_world]
    by blast
qed

lemma write_sink_clock: "mono (write_sink w p bytes) = mono w"
  by (simp add: write_sink_def)

lemma ReplyWithError_typed:
  assumes "req_Context r = LoggerValue (Some p)"
  shows "ReplyWithError Sprintf rw r (TypedError e) w =
     Inr (Response e rw,
          write_sink w p
            (emission Sprintf w p
               (if 400 \<le> err_Status e \<and> err_Status e < 500 then infoLevel else errorLevel)
               (if (400 \<le> err_Status e \<and> err_Status e < 500) \<or> err_Alarm e = [] then IVal GNil
                else IVal (LogContext_value (emptyLogContext\<lparr>Alarm := err_Alarm e\<rparr>)))
               (err_Message e) []))"
  using assms
  by (simp add: ReplyWithError_def GetLogger_def Info_def Error_def ErrorC_def log_emission)

lemma flattened_alarm:
  "a \<noteq> [] \<Longrightarrow> flattened (LogContext_value (emptyLogContext\<lparr>Alarm := a\<rparr>)) = [member ''alarm'' a]"
  by (simp add: flattened_LogContext LogContext_fields_def emptyLogContext_def)

text \<open>
  Claim C4, as amended. With the logger of the request at \<open>p\<close>: an error whose status is in
  400..499 is logged at INFO, any other at ERROR; when the status is outside 400..499 and
  the alarm is not empty, the ERROR record carries the alarm as the member \<^verbatim>\<open>alarm\<close>, and
  when the alarm is empty no context is attached.
\<close>

theorem ReplyWithError_level:
  assumes "req_Context r = LoggerValue (Some p)"
  shows "(400 \<le> err_Status e \<and> err_Status e < 500 \<longrightarrow>
            (\<exists>c. ReplyWithError Sprintf rw r (TypedError e) w =
               Inr (Response e rw,
                    write_sink w p (emission Sprintf w p infoLevel c (err_Message e) []))))
       \<and> (400 \<le> err_Status e \<and> err_Status e < 500 \<and> err_Alarm e = [] \<longrightarrow>
            ReplyWithError Sprintf rw r (TypedError e) w =
               Inr (Response e rw,
                    write_sink w p (emission Sprintf w p infoLevel (IVal GNil) (err_Message e) [])))
       \<and> (\<not> (400 \<le> err_Status e \<and> err_Status e < 500) \<and> err_Alarm e \<noteq> [] \<longrightarrow>
            ReplyWithError Sprintf rw r (TypedError e) w =
               Inr (Response e rw,
                    write_sink w p (emission Sprintf w p errorLevel
                      (IVal (LogContext_value (emptyLogContext\<lparr>Alarm := err_Alarm e\<rparr>)))
                      (err_Message e) []))
            \<and> flattened (LogContext_value (emptyLogContext\<lparr>Alarm := err_Alarm e\<rparr>))
                = [member ''alarm'' (err_Alarm e)])
       \<and> (\<not> (400 \<le> err_Status e \<and> err_Status e < 500) \<and> err_Alarm e = [] \<longrightarrow>
            ReplyWithError Sprintf rw r (TypedError e) w =
               Inr (Response e rw,
                    write_sink w p (emission Sprintf w p errorLevel (IVal GNil) (err_Message e) [])))"
  using ReplyWithError_typed [OF assms, of Sprintf rw e w] flattened_alarm [of "err_Alarm e"]
  by auto


lemma example_emission:
  \<open>emission example_Sprintf example_world 0 infoLevel (IVal GNil) ''log message'' [] =
     ''{"time":"2017-11-13T08:01:51.335Z","lvl":"INFO","msg":"log message"}'' @ [CHR 0x0A]\<close>
  \<open>emission example_Sprintf example_world 0 errorLevel (IVal GNil) ''log message'' [] =
     ''{"time":"2017-11-13T08:01:51.335Z","lvl":"ERROR","msg":"log message"}'' @ [CHR 0x0A]\<close>
  \<open>emission example_Sprintf example_world 0 errorLevel
       (IVal (LogContext_value (emptyLogContext\<lparr>Alarm := ''ALARM_01''\<rparr>))) ''log message'' [] =
     ''{"time":"2017-11-13T08:01:51.335Z","lvl":"ERROR","alarm":"ALARM_01","msg":"log message"}''
       @ [CHR 0x0A]\<close>
proof -
  have f: "flattened GNil = []" by (simp add: flattened_def)
  have a: "flattened (LogContext_value (emptyLogContext\<lparr>Alarm := ''ALARM_01''\<rparr>))
      = [member ''alarm'' ''ALARM_01'']"
    by (rule flattened_alarm) simp
  show \<open>emission example_Sprintf example_world 0 infoLevel (IVal GNil) ''log message'' [] =
     ''{"time":"2017-11-13T08:01:51.335Z","lvl":"INFO","msg":"log message"}'' @ [CHR 0x0A]\<close>
    by (simp add: emission_def example_world_def resolve_def f record_of_def level_name_def
        member_def quote_def escape_byte_def dq_def bslash_def)
  show \<open>emission example_Sprintf example_world 0 errorLevel (IVal GNil) ''log message'' [] =
     ''{"time":"2017-11-13T08:01:51.335Z","lvl":"ERROR","msg":"log message"}'' @ [CHR 0x0A]\<close>
    by (simp add: emission_def example_world_def resolve_def f record_of_def level_name_def
        member_def quote_def escape_byte_def dq_def bslash_def)
  show \<open>emission example_Sprintf example_world 0 errorLevel
       (IVal (LogContext_value (emptyLogContext\<lparr>Alarm := ''ALARM_01''\<rparr>))) ''log message'' [] =
     ''{"time":"2017-11-13T08:01:51.335Z","lvl":"ERROR","alarm":"ALARM_01","msg":"log message"}''
       @ [CHR 0x0A]\<close>
    by (simp add: emission_def example_world_def resolve_def f a record_of_def level_name_def
        member_def quote_def escape_byte_def dq_def bslash_def)
qed

theorem ReplyWithError_level_witness:
  \<open>req_Context example_logged_request = LoggerValue (Some 0)
   \<and> ReplyWithError example_Sprintf example_writer example_logged_request
        (TypedError (example_error 400 [])) example_world =
       Inr (Response (example_error 400 []) example_writer,
            write_sink example_world 0
              (''{"time":"2017-11-13T08:01:51.335Z","lvl":"INFO","msg":"log message"}''
                 @ [CHR 0x0A]))
   \<and> ReplyWithError example_Sprintf example_writer example_logged_request
        (TypedError (example_error 501 ''ALARM_01'')) example_world =
       Inr (Response (example_error 501 ''ALARM_01'') example_writer,
            write_sink example_world 0
              (''{"time":"2017-11-13T08:01:51.335Z","lvl":"ERROR","alarm":"ALARM_01","msg":"log message"}''
                 @ [CHR 0x0A]))
   \<and> ReplyWithError example_Sprintf example_writer example_logged_request
        (TypedError (example_error 500 [])) example_world =
       Inr (Response (example_error 500 []) example_writer,
            write_sink example_world 0
              (''{"time":"2017-11-13T08:01:51.335Z","lvl":"ERROR","msg":"log message"}''
                 @ [CHR 0x0A]))\<close>
proof -
  have h: "req_Context example_logged_request = LoggerValue (Some 0)"
    by (simp add: example_logged_request_def)
  have e: "err_Status (example_error st al) = st" "err_Alarm (example_error st al) = al"
    "err_Message (example_error st al) = ''log message''" for st al
    by (simp_all add: example_error_def)
  show ?thesis
    using h
      ReplyWithError_level [OF h, of "example_error 400 []" example_Sprintf example_writer example_world]
      ReplyWithError_level [OF h, of "example_error 501 ''ALARM_01''" example_Sprintf example_writer example_world]
      ReplyWithError_level [OF h, of "example_error 500 []" example_Sprintf example_writer example_world]
    by (simp add: e example_emission)
qed

lemma write_sink_inject: "write_sink w p a = write_sink w p b \<Longrightarrow> a = b"
proof -
  assume "write_sink w p a = write_sink w p b"
  then have "sinks (write_sink w p a) (out (loggers w p)) = sinks (write_sink w p b) (out (loggers w p))"
    by simp
  then show ?thesis by (simp add: write_sink_def)
qed

text \<open>
  Claim C4 as it was stated fails: an error with status 403 and alarm \<^verbatim>\<open>A1\<close> is logged by the
  first branch of \<^verbatim>\<open>ReplyWithError\<close>, at INFO, and not as an ERROR record carrying the alarm.
\<close>

theorem ReplyWithError_alarm_403_counterexample:
  \<open>ReplyWithError example_Sprintf example_writer example_logged_request
      (TypedError (example_error 403 ''A1'')) example_world =
     Inr (Response (example_error 403 ''A1'') example_writer,
          write_sink example_world 0
            (''{"time":"2017-11-13T08:01:51.335Z","lvl":"INFO","msg":"log message"}''
               @ [CHR 0x0A]))
   \<and> ReplyWithError example_Sprintf example_writer example_logged_request
      (TypedError (example_error 403 ''A1'')) example_world \<noteq>
     Inr (Response (example_error 403 ''A1'') example_writer,
          write_sink example_world 0
            (''{"time":"2017-11-13T08:01:51.335Z","lvl":"ERROR","alarm":"A1","msg":"log message"}''
               @ [CHR 0x0A]))\<close>
proof -
  have h: "req_Context example_logged_request = LoggerValue (Some 0)"
    by (simp add: example_logged_request_def)
  have e: "err_Status (example_error 403 ''A1'') = 403" "err_Alarm (example_error 403 ''A1'') = ''A1''"
    "err_Message (example_error 403 ''A1'') = ''log message''"
    by (simp_all add: example_error_def)
  have eq: \<open>ReplyWithError example_Sprintf example_writer example_logged_request
      (TypedError (example_error 403 ''A1'')) example_world =
     Inr (Response (example_error 403 ''A1'') example_writer,
          write_sink example_world 0
            (''{"time":"2017-11-13T08:01:51.335Z","lvl":"INFO","msg":"log message"}''
               @ [CHR 0x0A]))\<close>
    using ReplyWithError_typed [OF h, of example_Sprintf example_writer "example_error 403 ''A1''" example_world]
    by (simp add: e example_emission)
  have ne: \<open>write_sink example_world 0
            (''{"time":"2017-11-13T08:01:51.335Z","lvl":"INFO","msg":"log message"}''
               @ [CHR 0x0A]) \<noteq>
          write_sink example_world 0
            (''{"time":"2017-11-13T08:01:51.335Z","lvl":"ERROR","alarm":"A1","msg":"log message"}''
               @ [CHR 0x0A])\<close>
  proof
    assume \<open>write_sink example_world 0
            (''{"time":"2017-11-13T08:01:51.335Z","lvl":"INFO","msg":"log message"}''
               @ [CHR 0x0A]) =
          write_sink example_world 0
            (''{"time":"2017-11-13T08:01:51.335Z","lvl":"ERROR","alarm":"A1","msg":"log message"}''
               @ [CHR 0x0A])\<close>
    then have \<open>''{"time":"2017-11-13T08:01:51.335Z","lvl":"INFO","msg":"log message"}''
               @ [CHR 0x0A] =
            ''{"time":"2017-11-13T08:01:51.335Z","lvl":"ERROR","alarm":"A1","msg":"log message"}''
               @ [CHR 0x0A]\<close>
      by (rule write_sink_inject)
    then show False by simp
  qed
  show ?thesis unfolding eq using ne by simp
qed











end
